theory Spec2Isabelle
  imports Complex_Main
begin

section \<open>JavaScript values as the presentation layer sees them\<close>

text \<open>
  The React components receive parsed JSON. A value is one of the JSON shapes plus
  \<open>undefined\<close>, which a read of an absent property yields. Numbers are the finite
  ones JSON carries. Objects are association lists from property names to values; a
  lookup takes the binding of the name.
\<close>

datatype jsval =
    JUndefined
  | JNull
  | JBool bool
  | JNum real
  | JStr string
  | JObj "(string \<times> jsval) list"

text \<open>A render that throws: a \<open>TypeError\<close> of the language, or React's refusal of an
  object in a text slot. Which of the two is not told apart.\<close>

datatype js_error = Thrown

text \<open>\<open>v.k\<close>: reading a property of \<open>undefined\<close> or \<open>null\<close> throws; a primitive has
  none of the data properties read here; an object yields the bound value or \<open>undefined\<close>.\<close>

fun js_get :: "jsval \<Rightarrow> string \<Rightarrow> js_error + jsval" where
  "js_get JUndefined k = Inl Thrown"
| "js_get JNull k = Inl Thrown"
| "js_get (JObj kvs) k = Inr (case map_of kvs k of None \<Rightarrow> JUndefined | Some v \<Rightarrow> v)"
| "js_get v k = Inr JUndefined"

text \<open>\<open>v?.k\<close>: optional chaining short-circuits to \<open>undefined\<close> on a nullish receiver.\<close>

fun js_opt_get :: "jsval \<Rightarrow> string \<Rightarrow> jsval" where
  "js_opt_get (JObj kvs) k = (case map_of kvs k of None \<Rightarrow> JUndefined | Some v \<Rightarrow> v)"
| "js_opt_get v k = JUndefined"

text \<open>Truthiness, as \<open>&&\<close> and JSX conditionals test it.\<close>

fun truthy :: "jsval \<Rightarrow> bool" where
  "truthy JUndefined = False"
| "truthy JNull = False"
| "truthy (JBool b) = b"
| "truthy (JNum x) = (x \<noteq> 0)"
| "truthy (JStr s) = (s \<noteq> [])"
| "truthy (JObj kvs) = True"

text \<open>What a JSX text slot shows: a value as it is, or a number formatted by
  \<open>toFixed\<close> with the given number of decimals.\<close>

datatype child = Value jsval | Fixed nat real

text \<open>\<open>{v}\<close> in JSX: React renders a primitive (nothing for \<open>undefined\<close>, \<open>null\<close> and
  booleans) and throws on a plain object.\<close>

fun as_child :: "jsval \<Rightarrow> js_error + child" where
  "as_child (JObj kvs) = Inl Thrown"
| "as_child v = Inr (Value v)"


text \<open>\<open>s.toUpperCase()\<close>, on the ASCII letters; only a string has the method.\<close>

definition upper_char :: "char \<Rightarrow> char" where
  "upper_char c =
     (case map_of (zip ''abcdefghijklmnopqrstuvwxyz'' ''ABCDEFGHIJKLMNOPQRSTUVWXYZ'') c of
        None \<Rightarrow> c
      | Some u \<Rightarrow> u)"

fun toUpperCase :: "jsval \<Rightarrow> js_error + child" where
  "toUpperCase (JStr s) = Inr (Value (JStr (map upper_char s)))"
| "toUpperCase v = Inl Thrown"

text \<open>\<open>s.replace(a, b)\<close> with one-character strings: the first occurrence only.\<close>

fun replace_first :: "char \<Rightarrow> char \<Rightarrow> string \<Rightarrow> string" where
  "replace_first a b [] = []"
| "replace_first a b (c # cs) = (if c = a then b # cs else c # replace_first a b cs)"

fun js_replace :: "jsval \<Rightarrow> char \<Rightarrow> char \<Rightarrow> js_error + child" where
  "js_replace (JStr s) a b = Inr (Value (JStr (replace_first a b s)))"
| "js_replace v a b = Inl Thrown"

text \<open>Rows of label and slot, built left to right; the first throw aborts the render.\<close>

type_synonym rows = "(string \<times> child) list"

fun rows_all :: "(js_error + rows) list \<Rightarrow> js_error + rows" where
  "rows_all [] = Inr []"
| "rows_all (Inl e # rest) = Inl e"
| "rows_all (Inr r # rest) = (case rows_all rest of Inl e \<Rightarrow> Inl e | Inr rs \<Rightarrow> Inr (r @ rs))"

definition row :: "string \<Rightarrow> js_error + child \<Rightarrow> js_error + rows" where
  "row label slot = (case slot of Inl e \<Rightarrow> Inl e | Inr c \<Rightarrow> Inr [(label, c)])"

text \<open>\<open>{cond && (...)}\<close>: the rows are built only when the condition holds. (A guard
  that is the number 0 leaves the text 0 where the rows would be; that is no row.)\<close>

definition when_rows :: "bool \<Rightarrow> js_error + rows \<Rightarrow> js_error + rows" where
  "when_rows cond body = (if cond then body else Inr [])"

section \<open>Fragmentation banding (Statistics and SubnetList)\<close>

record frag_info =
  level :: string
  color :: string

text \<open>\<open>Statistics.getFragmentationLevel\<close>: two strict comparisons, in this order.
  The score is a finite number.\<close>

definition getFragmentationLevel :: "real \<Rightarrow> frag_info" where
  "getFragmentationLevel score =
     (if score < 20 then \<lparr>level = ''Low'', color = ''#10b981''\<rparr>
      else if score < 50 then \<lparr>level = ''Moderate'', color = ''#f59e0b''\<rparr>
      else \<lparr>level = ''High'', color = ''#ef4444''\<rparr>)"

text \<open>\<open>SubnetList.getFragmentationColor\<close>: the same bands, colour only.\<close>

definition getFragmentationColor :: "real \<Rightarrow> string" where
  "getFragmentationColor score =
     (if score < 20 then ''#10b981''
      else if score < 50 then ''#f59e0b''
      else ''#ef4444'')"

section \<open>The address map (IpVisualization)\<close>

text \<open>\<open>getIpColor\<close>: a \<open>switch\<close> on \<open>ip.status\<close> with strict equality, then a chain of
  comparisons on \<open>ip.details?.type\<close>.\<close>

definition getIpColor :: "jsval \<Rightarrow> js_error + string" where
  "getIpColor ip =
     (case js_get ip ''status'' of
        Inl e \<Rightarrow> Inl e
      | Inr st \<Rightarrow>
          (case js_get ip ''details'' of
             Inl e \<Rightarrow> Inl e
           | Inr details \<Rightarrow>
               Inr (if st = JStr ''used'' then
                      (if js_opt_get details ''type'' = JStr ''primary'' then ''#3b82f6''
                       else if js_opt_get details ''type'' = JStr ''secondary'' then ''#06b6d4''
                       else if js_opt_get details ''type'' = JStr ''prefix_delegation'' then ''#8b5cf6''
                       else ''#3b82f6'')
                    else if st = JStr ''reserved'' then ''#9ca3af''
                    else if st = JStr ''cidr_reservation'' then
                      (if js_opt_get details ''type'' = JStr ''explicit'' then ''#f59e0b''
                       else if js_opt_get details ''type'' = JStr ''prefix'' then ''#f97316''
                       else ''#f59e0b'')
                    else if st = JStr ''free'' then ''#f3f4f6''
                    else ''#f3f4f6'')))"

text \<open>\<open>getIpLabel\<close>: \<open>ip.ip.split('.').pop()\<close>, the text after the last dot.\<close>

definition last_octet :: "string \<Rightarrow> string" where
  "last_octet s = rev (takeWhile (\<lambda>c. c \<noteq> CHR ''.'') (rev s))"

definition getIpLabel :: "jsval \<Rightarrow> js_error + jsval" where
  "getIpLabel ip =
     (case js_get ip ''ip'' of
        Inl e \<Rightarrow> Inl e
      | Inr (JStr s) \<Rightarrow> Inr (JStr (last_octet s))
      | Inr v \<Rightarrow> Inl Thrown)"

text \<open>\<open>hasReservationOverlap\<close>: the value of
  \<open>ip.status === 'used' && ip.details?.cidrReservation\<close>.\<close>

definition hasReservationOverlap :: "jsval \<Rightarrow> js_error + jsval" where
  "hasReservationOverlap ip =
     (case js_get ip ''status'' of
        Inl e \<Rightarrow> Inl e
      | Inr st \<Rightarrow>
          if st = JStr ''used'' then
            (case js_get ip ''details'' of
               Inl e \<Rightarrow> Inl e
             | Inr details \<Rightarrow> Inr (js_opt_get details ''cidrReservation''))
          else Inr (JBool False))"

text \<open>One block of the grid: the status interpolated into its class, whether it carries
  the \<open>has-reservation\<close> class, its background colour, its title and its label, shown for
  every fourth index and for used addresses.\<close>

record ip_block =
  block_status :: jsval
  block_has_reservation :: bool
  block_color :: string
  block_title :: jsval
  block_label :: "jsval option"

definition render_ip_block :: "jsval \<Rightarrow> nat \<Rightarrow> js_error + ip_block" where
  "render_ip_block ip index =
     (case hasReservationOverlap ip of
        Inl e \<Rightarrow> Inl e
      | Inr overlap \<Rightarrow>
     (case js_get ip ''status'' of
        Inl e \<Rightarrow> Inl e
      | Inr st \<Rightarrow>
     (case getIpColor ip of
        Inl e \<Rightarrow> Inl e
      | Inr c \<Rightarrow>
     (case js_get ip ''ip'' of
        Inl e \<Rightarrow> Inl e
      | Inr title \<Rightarrow>
          if index mod 4 = 0 \<or> st = JStr ''used'' then
            (case getIpLabel ip of
               Inl e \<Rightarrow> Inl e
             | Inr label \<Rightarrow>
                 Inr \<lparr>block_status = st, block_has_reservation = truthy overlap,
                      block_color = c, block_title = title, block_label = Some label\<rparr>)
          else
            Inr \<lparr>block_status = st, block_has_reservation = truthy overlap,
                 block_color = c, block_title = title, block_label = None\<rparr>))))"

text \<open>The tooltip of the hovered address: absent while nothing is hovered, else the
  header (the address) and the rows of the body. The rows after the status depend on the
  status; within a used address each row is guarded by the truthiness of its field.\<close>

definition tooltip :: "jsval \<Rightarrow> js_error + (child \<times> rows) option" where
  "tooltip hoveredIp =
     (if \<not> truthy hoveredIp then Inr None
      else
        (case as_child (js_opt_get hoveredIp ''ip'') of
           Inl e \<Rightarrow> Inl e
         | Inr header \<Rightarrow>
             (let st = js_opt_get hoveredIp ''status'';
                  details = js_opt_get hoveredIp ''details'';
                  resv = js_opt_get details ''cidrReservation''
              in case
                   rows_all
                     [row ''Status:'' (toUpperCase st),
                      when_rows (st = JStr ''used'' \<and> truthy details)
                        (rows_all
                           [when_rows (truthy (js_opt_get details ''type''))
                              (row ''Type:''
                                 (js_replace (js_opt_get details ''type'') (CHR ''_'') (CHR '' ''))),
                            when_rows (truthy (js_opt_get details ''interfaceId''))
                              (row ''ENI:'' (as_child (js_opt_get details ''interfaceId''))),
                            when_rows (truthy (js_opt_get details ''description''))
                              (row ''Description:'' (as_child (js_opt_get details ''description''))),
                            when_rows (truthy (js_opt_get details ''status''))
                              (row ''ENI Status:'' (as_child (js_opt_get details ''status''))),
                            when_rows (truthy resv)
                              (rows_all
                                 [row ''CIDR Reservation:'' (as_child (js_opt_get resv ''cidr'')),
                                  row ''Reservation Type:'' (as_child (js_opt_get resv ''type'')),
                                  when_rows (truthy (js_opt_get resv ''description''))
                                    (row ''Reservation Desc:''
                                       (as_child (js_opt_get resv ''description'')))])]),
                      when_rows (st = JStr ''reserved'' \<and> truthy details)
                        (row ''Reason:'' (as_child (js_opt_get details ''reason''))),
                      when_rows (st = JStr ''cidr_reservation'' \<and> truthy details)
                        (rows_all
                           [row ''Reservation Type:'' (as_child (js_opt_get details ''type'')),
                            row ''CIDR Block:'' (as_child (js_opt_get details ''cidr'')),
                            when_rows (truthy (js_opt_get details ''description''))
                              (row ''Description:'' (as_child (js_opt_get details ''description''))),
                            when_rows (truthy (js_opt_get details ''reservationId''))
                              (row ''ID:'' (as_child (js_opt_get details ''reservationId'')))])]
                 of
                   Inl e \<Rightarrow> Inl e
                 | Inr body \<Rightarrow> Inr (Some (header, body)))))"

section \<open>The fragmentation card of Statistics\<close>



section \<open>The subnet list\<close>

text \<open>The counts every subnet summary carries.\<close>

record ip_counts =
  totalIps :: nat
  usedIps :: nat
  availableIps :: nat
  reservedIps :: nat
  primaryIps :: nat
  secondaryIps :: nat
  prefixDelegationIps :: nat
  cidrReservationIps :: nat

record reservation_ref =
  ref_cidr :: string
  ref_type :: string

text \<open>One element of the \<open>subnets\<close> prop, with the fields \<open>SubnetList\<close> reads;
  \<open>cidrReservations\<close> may be absent.\<close>

record subnet_summary = ip_counts +
  id :: string
  name :: string
  cidr :: string
  availabilityZone :: string
  utilization :: real
  fragmentationScore :: real
  cidrReservations :: "reservation_ref list option"

text \<open>One rendered \<open>subnet-item\<close>: its key, whether it carries the \<open>selected\<close> class,
  the subnet its click hands to \<open>onSelect\<close>, and the texts, badges and bar it shows.
  The reservations block is absent when the subnet has no reservation list or an empty one.\<close>

record subnet_item =
  item_key :: string
  item_selected :: bool
  item_click :: subnet_summary
  item_name :: string
  item_az :: string
  item_cidr :: string
  item_utilization :: child
  item_used :: nat
  item_total :: nat
  item_available :: nat
  item_badges :: "(string \<times> nat) list"
  item_reservations :: "(string \<times> string) list option"
  item_bar_width :: real
  item_bar_color :: string
  item_frag_value :: child

datatype subnet_list_view =
    LoadingView
  | EmptyView
  | ListView nat "subnet_item list"

text \<open>The badges: each is rendered only when its count is positive.\<close>

definition ip_type_badges :: "subnet_summary \<Rightarrow> (string \<times> nat) list" where
  "ip_type_badges subnet =
     (if primaryIps subnet > 0 then [(''Primary: '', primaryIps subnet)] else [])
     @ (if secondaryIps subnet > 0 then [(''Secondary: '', secondaryIps subnet)] else [])
     @ (if prefixDelegationIps subnet > 0 then [(''Prefix: '', prefixDelegationIps subnet)] else [])
     @ (if cidrReservationIps subnet > 0 then [(''CIDR Resv: '', cidrReservationIps subnet)] else [])"

text \<open>The body of \<open>subnets.map(subnet => ...)\<close>.\<close>

definition render_subnet_item :: "subnet_summary option \<Rightarrow> subnet_summary \<Rightarrow> subnet_item" where
  "render_subnet_item selectedSubnet subnet =
     \<lparr>item_key = id subnet,
      item_selected = (case selectedSubnet of None \<Rightarrow> False | Some s \<Rightarrow> id s = id subnet),
      item_click = subnet,
      item_name = name subnet,
      item_az = availabilityZone subnet,
      item_cidr = cidr subnet,
      item_utilization = Fixed 1 (utilization subnet),
      item_used = usedIps subnet,
      item_total = totalIps subnet,
      item_available = availableIps subnet,
      item_badges = ip_type_badges subnet,
      item_reservations =
        (case cidrReservations subnet of
           None \<Rightarrow> None
         | Some rs \<Rightarrow>
             if length rs > 0 then Some (map (\<lambda>resv. (ref_cidr resv, ref_type resv)) rs)
             else None),
      item_bar_width = fragmentationScore subnet,
      item_bar_color = getFragmentationColor (fragmentationScore subnet),
      item_frag_value = Fixed 1 (fragmentationScore subnet)\<rparr>"

text \<open>\<open>SubnetList\<close>: two early returns, then the list with its count in the heading.\<close>

definition SubnetList ::
  "subnet_summary list \<Rightarrow> subnet_summary option \<Rightarrow> bool \<Rightarrow> subnet_list_view" where
  "SubnetList subnets selectedSubnet loading =
     (if loading then LoadingView
      else if length subnets = 0 then EmptyView
      else ListView (length subnets) (map (render_subnet_item selectedSubnet) subnets))"

section \<open>The analysis engine\<close>

text \<open>
  The engine that classifies the addresses of a subnet and summarises its free runs is
  the backend of the repository, and its code is not among the sources: only the React
  front end is. Every definition of this section and the next is therefore modelled from
  the specification, section by section. Inventory records are the validated records of
  the system boundary (spec 9): addresses are numbers and CIDR blocks are pairs of a
  network address and a prefix length. The float-valued fields of the report
  (\<open>utilization\<close>, \<open>fragmentationScore\<close>) are left out: the specification fixes no
  formula for the score.
\<close>

text \<open>Modelled from the spec: AddressSpace (3, 4.1), a CIDR block as an ordered,
  indexable range; the constructor that parses the CIDR string is missing.\<close>

record address_space =
  network :: nat
  prefixLength :: nat

text \<open>Modelled from the spec: an IPv4 address from its four octets, for writing the
  scenarios of spec 8; no such helper is in the sources.\<close>

definition ipv4 :: "nat \<Rightarrow> nat \<Rightarrow> nat \<Rightarrow> nat \<Rightarrow> nat" where
  "ipv4 a b c d = ((a * 256 + b) * 256 + c) * 256 + d"

text \<open>Modelled from the spec: \<open>size()\<close> of AddressSpace (4.1), \<open>2^(32 - prefix)\<close>; the
  method is missing.\<close>

definition as_size :: "address_space \<Rightarrow> nat" where
  "as_size sp = 2 ^ (32 - prefixLength sp)"

text \<open>Modelled from the spec: \<open>addressAt(i)\<close> of AddressSpace (3, 4.1),
  \<open>network_address + i\<close>; the method is missing.\<close>

definition addressAt :: "address_space \<Rightarrow> nat \<Rightarrow> nat" where
  "addressAt sp i = network sp + i"

text \<open>Modelled from the spec: the expansion of a CIDR into its constituent addresses
  (4.2 steps 4 and 6), in address order; the expansion is missing.\<close>

definition addresses :: "address_space \<Rightarrow> nat list" where
  "addresses sp = map (addressAt sp) [0..<as_size sp]"

text \<open>Modelled from the spec: an address falls inside a block's range (3, overlap
  invariant); the test is missing.\<close>

definition covers :: "address_space \<Rightarrow> nat \<Rightarrow> bool" where
  "covers sp a \<longleftrightarrow> network sp \<le> a \<and> a < network sp + as_size sp"

text \<open>Modelled from the spec: a network-interface record of \<open>listNetworkInterfaces\<close>
  (4.2, 6); the record type is missing.\<close>

record network_interface =
  interfaceId :: string
  description :: string
  eniStatus :: string
  primaryPrivateIp :: "nat option"
  secondaryPrivateIps :: "nat list"
  attachedIpv4Prefixes :: "address_space list"

text \<open>Modelled from the spec: the reservation-type tag, \<open>explicit\<close> or \<open>prefix\<close> (4.2);
  the type is missing.\<close>

datatype reservation_type = Explicit | Prefix

text \<open>Modelled from the spec: a CIDR-reservation record of \<open>listCidrReservations\<close>
  (4.2, 6); the record type is missing.\<close>

record cidr_reservation =
  reservationId :: string
  resv_cidr :: address_space
  resv_type :: reservation_type
  resv_description :: string

text \<open>Modelled from the spec: AllocationSource, the tagged variant of spec 3 with the
  fields listed there in order; the type is missing.\<close>

datatype allocation_source =
    PrimaryENI string string string
  | SecondaryENI string string string
  | PrefixDelegation string address_space string string
  | AwsReserved string
  | ExplicitReservation string address_space string
  | PrefixReservation string address_space string

text \<open>Modelled from the spec: the source is a primary ENI address (4.2 step 3); the test
  is missing.\<close>

fun is_primary :: "allocation_source \<Rightarrow> bool" where
  "is_primary (PrimaryENI i d s) = True"
| "is_primary src = False"

text \<open>Modelled from the spec: the source was assigned by step 2 or 3 of 4.2, a primary
  or secondary ENI address; the test is missing.\<close>

fun is_eni :: "allocation_source \<Rightarrow> bool" where
  "is_eni (PrimaryENI i d s) = True"
| "is_eni (SecondaryENI i d s) = True"
| "is_eni src = False"

text \<open>Modelled from the spec: a Used source, one of PrimaryENI, SecondaryENI and
  PrefixDelegation (4.3); the test is missing.\<close>

fun is_used :: "allocation_source \<Rightarrow> bool" where
  "is_used (PrimaryENI i d s) = True"
| "is_used (SecondaryENI i d s) = True"
| "is_used (PrefixDelegation i p d s) = True"
| "is_used src = False"

text \<open>Modelled from the spec: what the AllocationIndex holds for one address (3, 4.2):
  its source, the CIDR reservation retained as overlap detail of a Used address, and the
  AWS-reserved fact retained for a Used address; the type is missing.\<close>

record index_entry =
  source :: allocation_source
  overlap :: "cidr_reservation option"
  aws_overlap :: "string option"

text \<open>Modelled from the spec: AllocationIndex, the mapping from address to allocation
  (3); the type is missing.\<close>

type_synonym allocation_index = "nat \<rightharpoonup> index_entry"

text \<open>Modelled from the spec: an entry as a build step first assigns it, with no
  auxiliary detail; the constructor is missing.\<close>

definition fresh :: "allocation_source \<Rightarrow> index_entry" where
  "fresh src = \<lparr>source = src, overlap = None, aws_overlap = None\<rparr>"

text \<open>Modelled from the spec: one write of the build (4.2), replacing what the index
  holds for an address by a function of what it held; the write is missing.\<close>

definition update_at ::
  "nat \<Rightarrow> (index_entry option \<Rightarrow> index_entry option) \<Rightarrow> allocation_index \<Rightarrow> allocation_index" where
  "update_at a f idx = idx(a := f (idx a))"

text \<open>Modelled from the spec: step 2 of 4.2 for one address, PrimaryENI whatever was
  there (last write wins); the step is missing.\<close>

definition primary_entry :: "network_interface \<Rightarrow> index_entry option \<Rightarrow> index_entry option" where
  "primary_entry ifc old =
     Some (fresh (PrimaryENI (interfaceId ifc) (description ifc) (eniStatus ifc)))"

text \<open>Modelled from the spec: step 2 of 4.2 for one interface, whose primary address
  may be absent; the step is missing.\<close>

definition assign_primary :: "network_interface \<Rightarrow> allocation_index \<Rightarrow> allocation_index" where
  "assign_primary ifc idx =
     (case primaryPrivateIp ifc of
        None \<Rightarrow> idx
      | Some a \<Rightarrow> update_at a (primary_entry ifc) idx)"

text \<open>Modelled from the spec: step 3 of 4.2 for one address, SecondaryENI only if the
  address is not already assigned as primary, last write winning otherwise; the step is
  missing.\<close>

definition secondary_entry :: "network_interface \<Rightarrow> index_entry option \<Rightarrow> index_entry option" where
  "secondary_entry ifc old =
     (case old of
        None \<Rightarrow> Some (fresh (SecondaryENI (interfaceId ifc) (description ifc) (eniStatus ifc)))
      | Some e \<Rightarrow>
          if is_primary (source e) then Some e
          else Some (fresh (SecondaryENI (interfaceId ifc) (description ifc) (eniStatus ifc))))"

text \<open>Modelled from the spec: step 3 of 4.2 for one interface, over its secondary
  addresses in order; the step is missing.\<close>

definition assign_secondary :: "network_interface \<Rightarrow> allocation_index \<Rightarrow> allocation_index" where
  "assign_secondary ifc idx =
     fold (\<lambda>a. update_at a (secondary_entry ifc)) (secondaryPrivateIps ifc) idx"

text \<open>Modelled from the spec: step 4 of 4.2 for one address, PrefixDelegation unless
  the address was assigned by step 2 or 3; the step is missing.\<close>

definition delegated_entry ::
  "network_interface \<Rightarrow> address_space \<Rightarrow> index_entry option \<Rightarrow> index_entry option" where
  "delegated_entry ifc p old =
     (case old of
        None \<Rightarrow>
          Some (fresh (PrefixDelegation (interfaceId ifc) p (description ifc) (eniStatus ifc)))
      | Some e \<Rightarrow>
          if is_eni (source e) then Some e
          else Some (fresh (PrefixDelegation (interfaceId ifc) p (description ifc) (eniStatus ifc))))"

text \<open>Modelled from the spec: step 4 of 4.2 for one attached prefix, expanded into its
  addresses; the step is missing.\<close>

definition assign_prefix ::
  "network_interface \<Rightarrow> address_space \<Rightarrow> allocation_index \<Rightarrow> allocation_index" where
  "assign_prefix ifc p idx = fold (\<lambda>a. update_at a (delegated_entry ifc p)) (addresses p) idx"

text \<open>Modelled from the spec: step 4 of 4.2 for one interface, over its attached
  prefixes in order; the step is missing.\<close>

definition assign_prefixes :: "network_interface \<Rightarrow> allocation_index \<Rightarrow> allocation_index" where
  "assign_prefixes ifc idx = fold (assign_prefix ifc) (attachedIpv4Prefixes ifc) idx"

text \<open>Modelled from the spec: the addresses AWS reserves (4.2 step 5), the first four
  (network, network+1, network+2, network+3) and the last (broadcast), each with that
  name as its reason; the list is missing.\<close>

definition aws_reserved_addresses :: "address_space \<Rightarrow> (nat \<times> string) list" where
  "aws_reserved_addresses sp =
     [(addressAt sp 0, ''network''),
      (addressAt sp 1, ''network+1''),
      (addressAt sp 2, ''network+2''),
      (addressAt sp 3, ''network+3''),
      (addressAt sp (as_size sp - 1), ''broadcast'')]"

text \<open>Modelled from the spec: step 5 of 4.2 for one address, AwsReserved unless a Used
  source is already assigned, in which case the status stays and the reserved fact is
  retained as detail; the step is missing.\<close>

definition aws_entry :: "string \<Rightarrow> index_entry option \<Rightarrow> index_entry option" where
  "aws_entry reason old =
     (case old of
        None \<Rightarrow> Some (fresh (AwsReserved reason))
      | Some e \<Rightarrow>
          if is_used (source e) \<and> aws_overlap e = None then Some (e\<lparr>aws_overlap := Some reason\<rparr>)
          else Some e)"

text \<open>Modelled from the spec: step 5 of 4.2 over the reserved addresses of the subnet;
  the step is missing.\<close>

definition mark_aws_reserved :: "address_space \<Rightarrow> allocation_index \<Rightarrow> allocation_index" where
  "mark_aws_reserved sp idx =
     fold (\<lambda>(a, reason). update_at a (aws_entry reason)) (aws_reserved_addresses sp) idx"

text \<open>Modelled from the spec: the source a reservation assigns to a free address,
  ExplicitReservation or PrefixReservation per its type tag (4.2 step 6); the choice is
  missing.\<close>

definition reservation_source :: "cidr_reservation \<Rightarrow> allocation_source" where
  "reservation_source r =
     (case resv_type r of
        Explicit \<Rightarrow> ExplicitReservation (reservationId r) (resv_cidr r) (resv_description r)
      | Prefix \<Rightarrow> PrefixReservation (reservationId r) (resv_cidr r) (resv_description r))"

text \<open>Modelled from the spec: step 6 of 4.2 for one address: a free address takes the
  reservation as its source; a Used address keeps its status and has the reservation
  attached as overlap detail; where an earlier-listed reservation already stands, as source
  or as overlap, it stays (first listed wins); the step is missing.\<close>

definition reserved_entry :: "cidr_reservation \<Rightarrow> index_entry option \<Rightarrow> index_entry option" where
  "reserved_entry r old =
     (case old of
        None \<Rightarrow> Some (fresh (reservation_source r))
      | Some e \<Rightarrow>
          if is_used (source e) \<and> overlap e = None then Some (e\<lparr>overlap := Some r\<rparr>)
          else Some e)"

text \<open>Modelled from the spec: step 6 of 4.2 for one reservation, expanded into its
  addresses; the step is missing.\<close>

definition apply_reservation :: "cidr_reservation \<Rightarrow> allocation_index \<Rightarrow> allocation_index" where
  "apply_reservation r idx =
     fold (\<lambda>a. update_at a (reserved_entry r)) (addresses (resv_cidr r)) idx"

text \<open>Modelled from the spec: steps 1 to 5 of the AllocationIndex build (4.2), each step
  over all interfaces before the next; the build is missing.\<close>

definition before_reservations ::
  "address_space \<Rightarrow> network_interface list \<Rightarrow> allocation_index" where
  "before_reservations sp interfaces =
     mark_aws_reserved sp
       (fold assign_prefixes interfaces
         (fold assign_secondary interfaces
           (fold assign_primary interfaces Map.empty)))"

text \<open>Modelled from the spec: the AllocationIndex build (4.2), steps 1 to 5 and then the
  reservations in the order listed; the build is missing.\<close>

definition build_index ::
  "address_space \<Rightarrow> network_interface list \<Rightarrow> cidr_reservation list \<Rightarrow> allocation_index" where
  "build_index sp interfaces reservations =
     fold apply_reservation reservations (before_reservations sp interfaces)"

text \<open>Modelled from the spec: the status of a ClassifiedAddress (3); the type is
  missing.\<close>

datatype ip_status = Used | Reserved | CidrReservation | Free

text \<open>Modelled from the spec: the status a source gives (4.3): used for the three Used
  sources, reserved for AwsReserved, cidr_reservation for the two reservations; the
  mapping is missing.\<close>

fun status_of :: "allocation_source \<Rightarrow> ip_status" where
  "status_of (PrimaryENI i d s) = Used"
| "status_of (SecondaryENI i d s) = Used"
| "status_of (PrefixDelegation i p d s) = Used"
| "status_of (AwsReserved r) = Reserved"
| "status_of (ExplicitReservation i c d) = CidrReservation"
| "status_of (PrefixReservation i c d) = CidrReservation"

text \<open>Modelled from the spec: ClassifiedAddress (3): the address, its status and the
  detail, the index entry with its overlap, or none for a free address; the type is
  missing.\<close>

record classified_address =
  ip :: nat
  status :: ip_status
  details :: "index_entry option"

text \<open>Modelled from the spec: the Classifier for one address (4.3); the function is
  missing.\<close>

definition classify :: "allocation_index \<Rightarrow> nat \<Rightarrow> classified_address" where
  "classify idx a =
     (case idx a of
        None \<Rightarrow> \<lparr>ip = a, status = Free, details = None\<rparr>
      | Some e \<Rightarrow> \<lparr>ip = a, status = status_of (source e), details = Some e\<rparr>)"

text \<open>Modelled from the spec: the Classifier's ordered sequence over every index from 0
  to size-1 (4.3); the function is missing.\<close>

definition classify_all :: "address_space \<Rightarrow> allocation_index \<Rightarrow> classified_address list" where
  "classify_all sp idx = map (\<lambda>i. classify idx (addressAt sp i)) [0..<as_size sp]"

text \<open>Modelled from the spec: the GapAnalyzer's scan (4.4), one pass from left to right
  that tracks the length of the current run of \<open>free\<close> addresses and emits it when any
  other status, or the end, closes the run; the scan is missing.\<close>

fun scan_gaps :: "ip_status list \<Rightarrow> nat \<Rightarrow> nat list" where
  "scan_gaps [] run = (if run > 0 then [run] else [])"
| "scan_gaps (s # rest) run =
     (if s = Free then scan_gaps rest (run + 1)
      else if run > 0 then run # scan_gaps rest 0
      else scan_gaps rest 0)"

text \<open>Modelled from the spec: the run lengths the GapAnalyzer emits for a classified
  sequence (4.4); the function is missing.\<close>

definition gap_runs :: "classified_address list \<Rightarrow> nat list" where
  "gap_runs classified = scan_gaps (map status classified) 0"

text \<open>Modelled from the spec: \<open>fragmentationDetails\<close> of the report (3); the mean is the
  exact quotient. The type is missing.\<close>

record fragmentation_details =
  numGaps :: nat
  largestGap :: nat
  avgGapSize :: rat

text \<open>Modelled from the spec: the statistics after the scan (4.4): the count of runs,
  the maximum run length (0 if there is none) and the mean of the run lengths (0 if there
  is none); the function is missing.\<close>

definition analyze_gaps :: "classified_address list \<Rightarrow> fragmentation_details" where
  "analyze_gaps classified =
     (let runs = gap_runs classified in
      \<lparr>numGaps = length runs,
       largestGap = fold max runs 0,
       avgGapSize = (if runs = [] then 0 else of_nat (sum_list runs) / of_nat (length runs))\<rparr>)"

text \<open>Modelled from the spec: the counters of the StatsAggregator's single pass (4.6);
  the type is missing.\<close>

record tally =
  n_used :: nat
  n_reserved :: nat
  n_cidr :: nat
  n_primary :: nat
  n_secondary :: nat
  n_prefix :: nat

text \<open>Modelled from the spec: one step of the StatsAggregator's pass (4.6): a used
  address counts as used and under the type of its source, a reserved and a
  CIDR-reserved address under their own counter, a free address under none; the step is
  missing.\<close>

definition count_address :: "classified_address \<Rightarrow> tally \<Rightarrow> tally" where
  "count_address ca t =
     (case status ca of
        Used \<Rightarrow>
          (case map_option source (details ca) of
             Some (PrimaryENI i d s) \<Rightarrow> t\<lparr>n_used := n_used t + 1, n_primary := n_primary t + 1\<rparr>
           | Some (SecondaryENI i d s) \<Rightarrow>
               t\<lparr>n_used := n_used t + 1, n_secondary := n_secondary t + 1\<rparr>
           | Some (PrefixDelegation i p d s) \<Rightarrow>
               t\<lparr>n_used := n_used t + 1, n_prefix := n_prefix t + 1\<rparr>
           | _ \<Rightarrow> t\<lparr>n_used := n_used t + 1\<rparr>)
      | Reserved \<Rightarrow> t\<lparr>n_reserved := n_reserved t + 1\<rparr>
      | CidrReservation \<Rightarrow> t\<lparr>n_cidr := n_cidr t + 1\<rparr>
      | Free \<Rightarrow> t)"

text \<open>Modelled from the spec: FragmentationReport (3), the counts and the gap
  statistics; the type is missing.\<close>

record fragmentation_report = ip_counts +
  fragmentationDetails :: fragmentation_details

text \<open>Modelled from the spec: the StatsAggregator (4.6): one pass over the classified
  sequence, then \<open>availableIps = total - usedIps - reservedIps - cidrReservationIps\<close>,
  a subtraction of counts that stops at 0; the function is missing.\<close>

definition aggregate ::
  "nat \<Rightarrow> classified_address list \<Rightarrow> fragmentation_details \<Rightarrow> fragmentation_report" where
  "aggregate totalCount classified gaps =
     (let t = fold count_address classified
                \<lparr>n_used = 0, n_reserved = 0, n_cidr = 0,
                 n_primary = 0, n_secondary = 0, n_prefix = 0\<rparr>
      in \<lparr>totalIps = totalCount,
          usedIps = n_used t,
          availableIps = totalCount - n_used t - n_reserved t - n_cidr t,
          reservedIps = n_reserved t,
          primaryIps = n_primary t,
          secondaryIps = n_secondary t,
          prefixDelegationIps = n_prefix t,
          cidrReservationIps = n_cidr t,
          fragmentationDetails = gaps\<rparr>)"

text \<open>Modelled from the spec: the structured errors that fail an analysis pass (6, 7);
  the type is missing.\<close>

datatype analysis_error = InvalidCidr | SubnetTooLarge

text \<open>Modelled from the spec: Subnet (3): identity, CIDR block and availability zone;
  the type is missing.\<close>

record subnet =
  subnet_id :: string
  subnet_name :: string
  subnet_cidr :: address_space
  subnet_az :: string

text \<open>Modelled from the spec: the result of \<open>analyzeSubnet\<close> (6), the classified
  addresses and the report; the type is missing.\<close>

record analysis_result =
  ips :: "classified_address list"
  summary :: fragmentation_report

text \<open>Modelled from the spec: a prefix length inside \<open>[0,32]\<close> (4.1); the check is
  missing.\<close>

definition valid_block :: "address_space \<Rightarrow> bool" where
  "valid_block sp \<longleftrightarrow> prefixLength sp \<le> 32"

text \<open>Modelled from the spec: the soft cap on the size of a subnet, the /16 of spec 4.1;
  the constant is missing.\<close>

definition subnet_soft_cap :: nat where
  "subnet_soft_cap = 65536"

text \<open>Modelled from the spec: \<open>analyzeSubnet\<close> (6, 7): a block with a prefix length
  outside \<open>[0,32]\<close> fails the whole pass with \<open>InvalidCidr\<close>, a subnet beyond the cap is
  rejected with \<open>SubnetTooLarge\<close>, and otherwise the index is built, every address is
  classified and the report is computed from the classified sequence; the function is
  missing.\<close>

definition analyzeSubnet ::
  "subnet \<Rightarrow> network_interface list \<Rightarrow> cidr_reservation list
     \<Rightarrow> analysis_error + analysis_result" where
  "analyzeSubnet sn interfaces reservations =
     (if \<not> (valid_block (subnet_cidr sn)
             \<and> list_all valid_block (concat (map attachedIpv4Prefixes interfaces))
             \<and> list_all (\<lambda>r. valid_block (resv_cidr r)) reservations)
      then Inl InvalidCidr
      else if as_size (subnet_cidr sn) > subnet_soft_cap then Inl SubnetTooLarge
      else
        (let classified = classify_all (subnet_cidr sn)
                            (build_index (subnet_cidr sn) interfaces reservations)
         in Inr \<lparr>ips = classified,
                 summary = aggregate (as_size (subnet_cidr sn)) classified
                             (analyze_gaps classified)\<rparr>))"

section \<open>The analysis result on the wire\<close>

text \<open>Modelled from the spec: one decimal digit as a character; the serialisation of
  the result is missing.\<close>

definition digit_char :: "nat \<Rightarrow> char" where
  "digit_char n = ''0123456789'' ! (n mod 10)"

text \<open>Modelled from the spec: a number in decimal; the serialisation of the result is
  missing.\<close>

fun show_nat :: "nat \<Rightarrow> string" where
  "show_nat n = (if n < 10 then [digit_char n] else show_nat (n div 10) @ [digit_char n])"

declare show_nat.simps [simp del]

text \<open>Modelled from the spec: an address in dotted decimal, the \<open>ip\<close> of the wire form
  (6); the serialisation is missing.\<close>

definition show_ip :: "nat \<Rightarrow> string" where
  "show_ip a =
     show_nat (a div 16777216 mod 256) @ ''.'' @ show_nat (a div 65536 mod 256) @ ''.''
     @ show_nat (a div 256 mod 256) @ ''.'' @ show_nat (a mod 256)"

text \<open>Modelled from the spec: a CIDR block as text, address and prefix length; the
  serialisation is missing.\<close>

definition show_cidr :: "address_space \<Rightarrow> string" where
  "show_cidr sp = show_ip (network sp) @ ''/'' @ show_nat (prefixLength sp)"

text \<open>Modelled from the spec: the status names of spec 3; the serialisation is
  missing.\<close>

fun status_text :: "ip_status \<Rightarrow> string" where
  "status_text Used = ''used''"
| "status_text Reserved = ''reserved''"
| "status_text CidrReservation = ''cidr_reservation''"
| "status_text Free = ''free''"

text \<open>Modelled from the spec: the reservation-type tags of spec 4.2; the serialisation
  is missing.\<close>

fun type_text :: "reservation_type \<Rightarrow> string" where
  "type_text Explicit = ''explicit''"
| "type_text Prefix = ''prefix''"

text \<open>Modelled from the spec: a reservation retained as overlap detail, with its cidr,
  type and description (8, property 9), under the names \<open>IpVisualization\<close> reads; the
  serialisation is missing.\<close>

definition reservation_json :: "cidr_reservation \<Rightarrow> jsval" where
  "reservation_json r =
     JObj [(''cidr'', JStr (show_cidr (resv_cidr r))),
           (''type'', JStr (type_text (resv_type r))),
           (''description'', JStr (resv_description r))]"

text \<open>Modelled from the spec: the payload of a source (3), under the names
  \<open>IpVisualization\<close> reads (\<open>type\<close>, \<open>interfaceId\<close>, \<open>description\<close>, \<open>status\<close>,
  \<open>reason\<close>, \<open>cidr\<close>, \<open>reservationId\<close>); the serialisation is missing.\<close>

fun source_fields :: "allocation_source \<Rightarrow> (string \<times> jsval) list" where
  "source_fields (PrimaryENI i d s) =
     [(''type'', JStr ''primary''), (''interfaceId'', JStr i),
      (''description'', JStr d), (''status'', JStr s)]"
| "source_fields (SecondaryENI i d s) =
     [(''type'', JStr ''secondary''), (''interfaceId'', JStr i),
      (''description'', JStr d), (''status'', JStr s)]"
| "source_fields (PrefixDelegation i p d s) =
     [(''type'', JStr ''prefix_delegation''), (''interfaceId'', JStr i),
      (''prefixCidr'', JStr (show_cidr p)), (''description'', JStr d), (''status'', JStr s)]"
| "source_fields (AwsReserved reason) = [(''reason'', JStr reason)]"
| "source_fields (ExplicitReservation i c d) =
     [(''type'', JStr ''explicit''), (''cidr'', JStr (show_cidr c)),
      (''description'', JStr d), (''reservationId'', JStr i)]"
| "source_fields (PrefixReservation i c d) =
     [(''type'', JStr ''prefix''), (''cidr'', JStr (show_cidr c)),
      (''description'', JStr d), (''reservationId'', JStr i)]"

text \<open>Modelled from the spec: the auxiliary detail of an entry: the overlapping
  reservation under \<open>cidrReservation\<close>, the name \<open>IpVisualization\<close> reads, and the
  AWS-reserved fact under \<open>awsReserved\<close>, a name no component reads; the serialisation
  is missing.\<close>

definition overlay_fields :: "index_entry \<Rightarrow> (string \<times> jsval) list" where
  "overlay_fields e =
     (case overlap e of None \<Rightarrow> [] | Some r \<Rightarrow> [(''cidrReservation'', reservation_json r)])
     @ (case aws_overlap e of None \<Rightarrow> [] | Some reason \<Rightarrow> [(''awsReserved'', JStr reason)])"

text \<open>Modelled from the spec: the detail object of a ClassifiedAddress, the full source
  payload plus the overlapping reservation (4.3); the serialisation is missing.\<close>

definition details_json :: "index_entry \<Rightarrow> jsval" where
  "details_json e = JObj (source_fields (source e) @ overlay_fields e)"

text \<open>Modelled from the spec: a ClassifiedAddress as \<open>{ip, status, details}\<close> (6), with
  no detail for a free address; the serialisation is missing.\<close>

definition address_json :: "classified_address \<Rightarrow> jsval" where
  "address_json ca =
     JObj [(''ip'', JStr (show_ip (ip ca))),
           (''status'', JStr (status_text (status ca))),
           (''details'', (case details ca of None \<Rightarrow> JNull | Some e \<Rightarrow> details_json e))]"

section \<open>What the gap statistics and the overlap rule mean\<close>

text \<open>The positions where a maximal run of free addresses starts: a free address that is
  the first of the sequence or follows an address that is not free.\<close>

definition run_starts :: "ip_status list \<Rightarrow> nat set" where
  "run_starts st =
     set (filter (\<lambda>i. st ! i = Free \<and> (i = 0 \<or> st ! (i - 1) \<noteq> Free)) [0..<length st])"

text \<open>The run starts of a suffix of the sequence, given whether its first position
  opens a new run.\<close>

definition starts_from :: "bool \<Rightarrow> ip_status list \<Rightarrow> nat set" where
  "starts_from opens st =
     {i. i < length st \<and> st ! i = Free \<and> (if i = 0 then opens else st ! (i - 1) \<noteq> Free)}"

text \<open>\<open>n\<close> consecutive addresses from position \<open>i\<close> on are all free.\<close>

definition free_segment :: "ip_status list \<Rightarrow> nat \<Rightarrow> nat \<Rightarrow> bool" where
  "free_segment st i n \<longleftrightarrow> i + n \<le> length st \<and> (\<forall>k < n. st ! (i + k) = Free)"

text \<open>An address carries a Used source: it is the primary or a secondary address of an
  interface, or lies in a prefix attached to one.\<close>

definition carries_used :: "network_interface list \<Rightarrow> nat \<Rightarrow> bool" where
  "carries_used interfaces a \<longleftrightarrow>
     list_ex (\<lambda>ifc. primaryPrivateIp ifc = Some a
                  \<or> a \<in> set (secondaryPrivateIps ifc)
                  \<or> list_ex (\<lambda>p. covers p a) (attachedIpv4Prefixes ifc)) interfaces"

text \<open>An index entry with a Used source, and one without overlap detail.\<close>

definition used_entry :: "index_entry option \<Rightarrow> bool" where
  "used_entry x = (case x of None \<Rightarrow> False | Some e \<Rightarrow> is_used (source e))"

definition plain_entry :: "index_entry option \<Rightarrow> bool" where
  "plain_entry x = (case x of None \<Rightarrow> True | Some e \<Rightarrow> overlap e = None)"

section \<open>Examples\<close>

text \<open>A subnet summary as the subnets endpoint returns it.\<close>

definition demo_subnet :: "string \<Rightarrow> subnet_summary" where
  "demo_subnet sid =
     \<lparr>totalIps = 16, usedIps = 2, availableIps = 9, reservedIps = 5, primaryIps = 1,
      secondaryIps = 1, prefixDelegationIps = 0, cidrReservationIps = 0,
      id = sid, name = ''private'', cidr = ''10.0.1.0/28'', availabilityZone = ''us-east-1a'',
      utilization = 12.5, fragmentationScore = 0, cidrReservations = None\<rparr>"

text \<open>The subnet of the scenarios of spec 8: \<open>10.0.1.0/28\<close>, one interface with its
  primary address at \<open>10.0.1.4\<close> and a secondary at \<open>10.0.1.5\<close>, and the explicit
  reservation of \<open>10.0.1.10/31\<close>.\<close>

definition demo_net :: subnet where
  "demo_net =
     \<lparr>subnet_id = ''subnet-1'', subnet_name = ''private'',
      subnet_cidr = \<lparr>network = ipv4 10 0 1 0, prefixLength = 28\<rparr>,
      subnet_az = ''us-east-1a''\<rparr>"

definition demo_eni :: network_interface where
  "demo_eni =
     \<lparr>interfaceId = ''eni-1'', description = ''node'', eniStatus = ''in-use'',
      primaryPrivateIp = Some (ipv4 10 0 1 4), secondaryPrivateIps = [ipv4 10 0 1 5],
      attachedIpv4Prefixes = []\<rparr>"

definition demo_resv :: cidr_reservation where
  "demo_resv =
     \<lparr>reservationId = ''scr-1'',
      resv_cidr = \<lparr>network = ipv4 10 0 1 10, prefixLength = 31\<rparr>,
      resv_type = Explicit, resv_description = ''held''\<rparr>"

text \<open>An interface whose primary address, \<open>10.0.1.10\<close>, lies in the reserved range.\<close>

definition demo_eni_in_range :: network_interface where
  "demo_eni_in_range =
     \<lparr>interfaceId = ''eni-2'', description = ''gateway'', eniStatus = ''in-use'',
      primaryPrivateIp = Some (ipv4 10 0 1 10), secondaryPrivateIps = [],
      attachedIpv4Prefixes = []\<rparr>"

text \<open>A short classified sequence: free, reserved, free, free.\<close>

definition demo_sequence :: "classified_address list" where
  "demo_sequence =
     map (\<lambda>s. \<lparr>ip = 0, status = s, details = None\<rparr>) [Free, Reserved, Free, Free]"

section \<open>Lemmas\<close>

lemma js_get_defined: "v \<noteq> JUndefined \<Longrightarrow> v \<noteq> JNull \<Longrightarrow> \<exists>w. js_get v k = Inr w"
  by (cases v) simp_all

lemma js_get_opt_get: "js_get v k = Inr w \<Longrightarrow> js_opt_get v k = w"
  by (cases v) auto

lemma run_starts_from: "run_starts st = starts_from True st"
  by (auto simp: run_starts_def starts_from_def)

lemma starts_from_Nil: "starts_from p [] = {}"
  by (simp add: starts_from_def)

lemma starts_from_Cons:
  "starts_from p (x # xs) =
     (if x = Free \<and> p then {0} else {}) \<union> Suc ` starts_from (x \<noteq> Free) xs"
proof (rule set_eqI)
  fix i
  show "i \<in> starts_from p (x # xs) \<longleftrightarrow>
        i \<in> (if x = Free \<and> p then {0} else {}) \<union> Suc ` starts_from (x \<noteq> Free) xs"
  proof (cases i)
    case 0
    then show ?thesis by (auto simp: starts_from_def)
  next
    case (Suc j)
    then show ?thesis by (cases j) (auto simp: starts_from_def image_iff)
  qed
qed

lemma finite_starts_from: "finite (starts_from p xs)"
  by (simp add: starts_from_def)

lemma card_starts_from_Cons:
  "card (starts_from p (x # xs)) =
     (if x = Free \<and> p then 1 else 0) + card (starts_from (x \<noteq> Free) xs)"
proof -
  have inj: "card (Suc ` starts_from (x \<noteq> Free) xs) = card (starts_from (x \<noteq> Free) xs)"
    by (rule card_image) simp
  have disj: "{0} \<inter> Suc ` starts_from (x \<noteq> Free) xs = {}" by auto
  show ?thesis
    using inj disj finite_starts_from [of "x \<noteq> Free" xs]
    by (simp add: starts_from_Cons card_Un_disjoint del: Un_insert_left)
qed

lemma length_scan_gaps:
  "length (scan_gaps xs run) = (if run > 0 then 1 else 0) + card (starts_from (run = 0) xs)"
proof (induction xs arbitrary: run)
  case Nil
  show ?case by (simp add: starts_from_Nil)
next
  case (Cons x xs)
  show ?case by (simp add: Cons.IH card_starts_from_Cons)
qed

lemma sum_scan_gaps:
  "sum_list (scan_gaps xs run) = run + length (filter (\<lambda>s. s = Free) xs)"
  by (induction xs arbitrary: run) auto

lemma scan_gaps_positive: "r \<in> set (scan_gaps xs run) \<Longrightarrow> 0 < r"
  by (induction xs arbitrary: run) (auto split: if_splits)

lemma fold_max_nat: "fold max xs (m::nat) = max m (fold max xs 0)"
proof (induction xs arbitrary: m)
  case Nil
  show ?case by simp
next
  case (Cons x xs)
  have "fold max (x # xs) m = fold max xs (max x m)" by simp
  also have "\<dots> = max (max x m) (fold max xs 0)" by (rule Cons.IH)
  also have "\<dots> = max m (max x (fold max xs 0))" by (simp add: max.assoc max.commute)
  also have "max x (fold max xs 0) = fold max xs (max x 0)"
    using Cons.IH [of "max x 0"] by simp
  finally show ?case by simp
qed

lemma free_segment_Nil: "free_segment [] i n \<longleftrightarrow> i = 0 \<and> n = 0"
  by (auto simp: free_segment_def)

lemma free_segment_Cons_0: "free_segment (x # xs) 0 n \<longleftrightarrow> (case n of 0 \<Rightarrow> True | Suc m \<Rightarrow> x = Free \<and> free_segment xs 0 m)"
  by (cases n) (auto simp: free_segment_def All_less_Suc2)

lemma free_segment_Cons_Suc: "free_segment (x # xs) (Suc j) n \<longleftrightarrow> free_segment xs j n"
  by (simp add: free_segment_def)

lemma largest_upper:
  "free_segment xs i n \<Longrightarrow> (if i = 0 then run + n else n) \<le> fold max (scan_gaps xs run) 0"
proof (induction xs arbitrary: run i n)
  case Nil
  then show ?case by (simp add: free_segment_Nil)
next
  case (Cons x xs)
  show ?case
  proof (cases i)
    case 0
    show ?thesis
    proof (cases n)
      case n0: 0
      have "free_segment xs 0 0" by (simp add: free_segment_def)
      from Cons.IH [OF this] have a: "\<And>r. r \<le> fold max (scan_gaps xs r) 0" by simp
      show ?thesis
        using a [of "run + 1"] a [of 0] 0 n0
        by (auto simp add: fold_max_nat [of _ run] le_max_iff_disj)
    next
      case (Suc m)
      with Cons.prems 0 have x: "x = Free" and seg: "free_segment xs 0 m"
        by (simp_all add: free_segment_Cons_0)
      from Cons.IH [OF seg, of "run + 1"] show ?thesis using 0 Suc x by simp
    qed
  next
    case (Suc j)
    with Cons.prems have seg: "free_segment xs j n" by (simp add: free_segment_Cons_Suc)
    have le: "n \<le> fold max (scan_gaps xs r) 0" for r
      using Cons.IH [OF seg, of r] by (cases "j = 0") simp_all
    show ?thesis using le [of "run + 1"] le [of 0] Suc
      by (auto simp add: fold_max_nat [of _ run] le_max_iff_disj)
  qed
qed

lemma largest_attained:
  "\<exists>i n. free_segment xs i n \<and> fold max (scan_gaps xs run) 0 = (if i = 0 then run + n else n)"
proof (induction xs arbitrary: run)
  case Nil
  show ?case by (auto simp: free_segment_Nil)
next
  case (Cons x xs)
  show ?case
  proof (cases "x = Free")
    case True
    from Cons.IH [of "run + 1"] obtain i n where seg: "free_segment xs i n"
      and m: "fold max (scan_gaps xs (run + 1)) 0 = (if i = 0 then run + 1 + n else n)" by blast
    show ?thesis
    proof (cases i)
      case 0
      have "free_segment (x # xs) 0 (Suc n)" using seg 0 True by (simp add: free_segment_Cons_0)
      moreover have "fold max (scan_gaps (x # xs) run) 0 = run + Suc n" using m 0 True by simp
      ultimately show ?thesis by (metis (full_types))
    next
      case (Suc j)
      have "free_segment (x # xs) (Suc i) n" using seg by (simp add: free_segment_Cons_Suc)
      moreover have "fold max (scan_gaps (x # xs) run) 0 = n" using m Suc True by simp
      ultimately show ?thesis by (metis (full_types) nat.distinct(1))
    qed
  next
    case False
    from Cons.IH [of 0] obtain i n where seg: "free_segment xs i n"
      and m: "fold max (scan_gaps xs 0) 0 = n" by (auto split: if_splits)
    have shifted: "free_segment (x # xs) (Suc i) n" using seg by (simp add: free_segment_Cons_Suc)
    have here: "free_segment (x # xs) 0 0" by (simp add: free_segment_Cons_0)
    have M: "fold max (scan_gaps (x # xs) run) 0 = max run n"
      using m False by (simp add: fold_max_nat [of _ run])
    show ?thesis
    proof (cases "run \<le> n")
      case True
      then have "fold max (scan_gaps (x # xs) run) 0 = n" using M by simp
      with shifted show ?thesis by (metis (full_types) nat.distinct(1))
    next
      case gt: False
      then have "fold max (scan_gaps (x # xs) run) 0 = run + 0" using M by simp
      with here show ?thesis by (metis (full_types))
    qed
  qed
qed

lemma count_address_sum:
  "n_used (count_address ca t) + n_reserved (count_address ca t) + n_cidr (count_address ca t)
     + (if status ca = Free then 1 else 0)
   = n_used t + n_reserved t + n_cidr t + 1"
  by (simp add: count_address_def split: ip_status.splits option.splits allocation_source.splits)

lemma fold_count_address_sum:
  "n_used (fold count_address cs t) + n_reserved (fold count_address cs t)
     + n_cidr (fold count_address cs t) + length (filter (\<lambda>c. status c = Free) cs)
   = n_used t + n_reserved t + n_cidr t + length cs"
proof (induction cs arbitrary: t)
  case Nil
  show ?case by simp
next
  case (Cons c cs)
  show ?case
    using Cons.IH [of "count_address c t"] count_address_sum [of c t]
    by (simp split: if_splits)
qed

lemma length_classify_all: "length (classify_all sp idx) = as_size sp"
  by (simp add: classify_all_def)

lemma set_addresses: "set (addresses sp) = {a. covers sp a}"
proof -
  have "a \<in> set (addresses sp) \<longleftrightarrow> covers sp a" for a
  proof
    assume "a \<in> set (addresses sp)"
    then show "covers sp a" by (auto simp: addresses_def covers_def addressAt_def)
  next
    assume c: "covers sp a"
    then have "a = addressAt sp (a - network sp)" "a - network sp < as_size sp"
      by (auto simp: covers_def addressAt_def)
    then show "a \<in> set (addresses sp)" unfolding addresses_def
      by (metis (no_types, lifting) atLeast0LessThan image_eqI lessThan_iff set_map set_upt)
  qed
  then show ?thesis by auto
qed

lemma update_at_apply: "update_at a f idx b = (if b = a then f (idx a) else idx b)"
  by (simp add: update_at_def)

lemma fold_update_at_idem:
  assumes "\<And>x. f (f x) = f x"
  shows "fold (\<lambda>a. update_at a f) as idx b = (if b \<in> set as then f (idx b) else idx b)"
proof (induction as arbitrary: idx)
  case Nil
  show ?case by simp
next
  case (Cons a as)
  have "fold (\<lambda>a. update_at a f) (a # as) idx b =
          (if b \<in> set as then f (update_at a f idx b) else update_at a f idx b)"
    by (simp add: Cons.IH)
  also have "\<dots> = (if b \<in> set (a # as) then f (idx b) else idx b)"
    by (simp add: update_at_apply assms)
  finally show ?case .
qed

lemma fold_keeps:
  assumes "\<And>x m. x \<in> set xs \<Longrightarrow> Q (m a) \<Longrightarrow> Q (g x m a)"
    and "Q (m a)"
  shows "Q (fold g xs m a)"
  using assms by (induction xs arbitrary: m) auto

lemma fold_gains:
  assumes "x \<in> set xs"
    and "\<And>m. Q (g x m a)"
    and "\<And>y m. y \<in> set xs \<Longrightarrow> Q (m a) \<Longrightarrow> Q (g y m a)"
  shows "Q (fold g xs m a)"
  using assms
proof (induction xs arbitrary: m)
  case Nil
  then show ?case by simp
next
  case (Cons y ys)
  show ?case
  proof (cases "x = y")
    case True
    have "Q (g y m a)" using Cons.prems(2) True by simp
    then have "Q (fold g ys (g y m) a)"
      by (rule fold_keeps [rotated]) (simp add: Cons.prems(3))
    then show ?thesis by simp
  next
    case False
    then have "x \<in> set ys" using Cons.prems(1) by simp
    then have "Q (fold g ys (g y m) a)"
      by (rule Cons.IH) (simp_all add: Cons.prems)
    then show ?thesis by simp
  qed
qed

lemma secondary_entry_idem: "secondary_entry ifc (secondary_entry ifc x) = secondary_entry ifc x"
  by (simp add: secondary_entry_def fresh_def split: option.splits)

lemma delegated_entry_idem: "delegated_entry ifc p (delegated_entry ifc p x) = delegated_entry ifc p x"
  by (simp add: delegated_entry_def fresh_def split: option.splits)

lemma reserved_entry_idem: "reserved_entry r (reserved_entry r x) = reserved_entry r x"
  by (simp add: reserved_entry_def fresh_def reservation_source_def
           split: option.splits reservation_type.splits)

lemma is_eni_used: "is_eni src \<Longrightarrow> is_used src"
  by (cases src) simp_all

lemma is_primary_used: "is_primary src \<Longrightarrow> is_used src"
  by (cases src) simp_all

lemma primary_entry_used: "used_entry (primary_entry ifc x)"
  by (simp add: used_entry_def primary_entry_def fresh_def)

lemma primary_entry_plain: "plain_entry (primary_entry ifc x)"
  by (simp add: plain_entry_def primary_entry_def fresh_def)

lemma secondary_entry_used: "used_entry (secondary_entry ifc x)"
  by (simp add: used_entry_def secondary_entry_def fresh_def is_primary_used split: option.splits)

lemma secondary_entry_plain: "plain_entry x \<Longrightarrow> plain_entry (secondary_entry ifc x)"
  by (simp add: plain_entry_def secondary_entry_def fresh_def split: option.splits)

lemma delegated_entry_used: "used_entry (delegated_entry ifc p x)"
  by (simp add: used_entry_def delegated_entry_def fresh_def is_eni_used split: option.splits)

lemma delegated_entry_plain: "plain_entry x \<Longrightarrow> plain_entry (delegated_entry ifc p x)"
  by (simp add: plain_entry_def delegated_entry_def fresh_def split: option.splits)

lemma aws_entry_used: "used_entry x \<Longrightarrow> used_entry (aws_entry reason x)"
  by (simp add: used_entry_def aws_entry_def split: option.splits)

lemma aws_entry_plain: "plain_entry x \<Longrightarrow> plain_entry (aws_entry reason x)"
  by (auto simp add: plain_entry_def aws_entry_def fresh_def split: option.splits)

lemma assign_primary_used: "used_entry (idx a) \<Longrightarrow> used_entry (assign_primary ifc idx a)"
  by (simp add: assign_primary_def update_at_apply primary_entry_used split: option.splits)

lemma assign_primary_plain: "plain_entry (idx a) \<Longrightarrow> plain_entry (assign_primary ifc idx a)"
  by (simp add: assign_primary_def update_at_apply primary_entry_plain split: option.splits)

lemma assign_primary_gains: "primaryPrivateIp ifc = Some a \<Longrightarrow> used_entry (assign_primary ifc idx a)"
  by (simp add: assign_primary_def update_at_apply primary_entry_used)

lemma assign_secondary_at:
  "assign_secondary ifc idx a =
     (if a \<in> set (secondaryPrivateIps ifc) then secondary_entry ifc (idx a) else idx a)"
  unfolding assign_secondary_def by (rule fold_update_at_idem) (rule secondary_entry_idem)

lemma assign_secondary_used: "used_entry (idx a) \<Longrightarrow> used_entry (assign_secondary ifc idx a)"
  by (simp add: assign_secondary_at secondary_entry_used)

lemma assign_secondary_plain: "plain_entry (idx a) \<Longrightarrow> plain_entry (assign_secondary ifc idx a)"
  by (simp add: assign_secondary_at secondary_entry_plain)

lemma assign_secondary_gains:
  "a \<in> set (secondaryPrivateIps ifc) \<Longrightarrow> used_entry (assign_secondary ifc idx a)"
  by (simp add: assign_secondary_at secondary_entry_used)

lemma assign_prefix_at:
  "assign_prefix ifc p idx a = (if covers p a then delegated_entry ifc p (idx a) else idx a)"
proof -
  have "assign_prefix ifc p idx a =
          (if a \<in> set (addresses p) then delegated_entry ifc p (idx a) else idx a)"
    unfolding assign_prefix_def by (rule fold_update_at_idem) (rule delegated_entry_idem)
  then show ?thesis by (simp add: set_addresses)
qed

lemma assign_prefixes_used: "used_entry (idx a) \<Longrightarrow> used_entry (assign_prefixes ifc idx a)"
  unfolding assign_prefixes_def
  by (rule fold_keeps [where Q = used_entry]) (simp_all add: assign_prefix_at delegated_entry_used)

lemma assign_prefixes_plain: "plain_entry (idx a) \<Longrightarrow> plain_entry (assign_prefixes ifc idx a)"
  unfolding assign_prefixes_def
  by (rule fold_keeps [where Q = plain_entry]) (simp_all add: assign_prefix_at delegated_entry_plain)

lemma assign_prefixes_gains:
  assumes "p \<in> set (attachedIpv4Prefixes ifc)" and "covers p a"
  shows "used_entry (assign_prefixes ifc idx a)"
  unfolding assign_prefixes_def
  by (rule fold_gains [where Q = used_entry and x = p])
     (simp_all add: assms assign_prefix_at delegated_entry_used)

lemma fold_aws_entry_keeps:
  assumes "\<And>reason x. Q x \<Longrightarrow> Q (aws_entry reason x)" and "Q (idx a)"
  shows "Q (fold (\<lambda>(b, reason). update_at b (aws_entry reason)) marks idx a)"
  using assms(2)
proof (induction marks arbitrary: idx)
  case Nil
  then show ?case by simp
next
  case (Cons mark marks)
  obtain b reason where mark: "mark = (b, reason)" by (cases mark)
  have "Q (update_at b (aws_entry reason) idx a)"
    using Cons.prems by (auto simp add: update_at_apply intro: assms(1))
  then have "Q (fold (\<lambda>(b, reason). update_at b (aws_entry reason)) marks
               (update_at b (aws_entry reason) idx) a)"
    by (rule Cons.IH)
  then show ?case by (simp add: mark)
qed

lemma mark_aws_reserved_used: "used_entry (idx a) \<Longrightarrow> used_entry (mark_aws_reserved sp idx a)"
  unfolding mark_aws_reserved_def
  by (rule fold_aws_entry_keeps [where Q = used_entry]) (simp_all add: aws_entry_used)

lemma mark_aws_reserved_plain: "plain_entry (idx a) \<Longrightarrow> plain_entry (mark_aws_reserved sp idx a)"
  unfolding mark_aws_reserved_def
  by (rule fold_aws_entry_keeps [where Q = plain_entry]) (simp_all add: aws_entry_plain)

lemma before_reservations_plain: "plain_entry (before_reservations sp interfaces a)"
proof -
  have "plain_entry (Map.empty a)" by (simp add: plain_entry_def)
  then have "plain_entry (fold assign_primary interfaces Map.empty a)"
    by (rule fold_keeps [where Q = plain_entry, rotated]) (rule assign_primary_plain)
  then have "plain_entry (fold assign_secondary interfaces (fold assign_primary interfaces Map.empty) a)"
    by (rule fold_keeps [where Q = plain_entry, rotated]) (rule assign_secondary_plain)
  then have "plain_entry (fold assign_prefixes interfaces
               (fold assign_secondary interfaces (fold assign_primary interfaces Map.empty)) a)"
    by (rule fold_keeps [where Q = plain_entry, rotated]) (rule assign_prefixes_plain)
  then show ?thesis unfolding before_reservations_def by (rule mark_aws_reserved_plain)
qed

lemma before_reservations_used:
  assumes "carries_used interfaces a"
  shows "used_entry (before_reservations sp interfaces a)"
proof -
  let ?m1 = "fold assign_primary interfaces Map.empty"
  let ?m2 = "fold assign_secondary interfaces ?m1"
  let ?m3 = "fold assign_prefixes interfaces ?m2"
  from assms obtain ifc where ifc: "ifc \<in> set interfaces"
    and how: "primaryPrivateIp ifc = Some a \<or> a \<in> set (secondaryPrivateIps ifc)
              \<or> (\<exists>p \<in> set (attachedIpv4Prefixes ifc). covers p a)"
    by (auto simp: carries_used_def list_ex_iff)
  have keep2: "used_entry (?m2 a)" if "used_entry (?m1 a)"
    using that by (rule fold_keeps [where Q = used_entry, rotated]) (rule assign_secondary_used)
  have keep3: "used_entry (?m3 a)" if "used_entry (?m2 a)"
    using that by (rule fold_keeps [where Q = used_entry, rotated]) (rule assign_prefixes_used)
  from how have "used_entry (?m3 a)"
  proof (elim disjE bexE)
    assume "primaryPrivateIp ifc = Some a"
    then have "used_entry (?m1 a)"
      by (intro fold_gains [where Q = used_entry and x = ifc] ifc)
         (simp_all add: assign_primary_gains assign_primary_used)
    then show ?thesis by (intro keep3 keep2)
  next
    assume "a \<in> set (secondaryPrivateIps ifc)"
    then have "used_entry (?m2 a)"
      by (intro fold_gains [where Q = used_entry and x = ifc] ifc)
         (simp_all add: assign_secondary_gains assign_secondary_used)
    then show ?thesis by (rule keep3)
  next
    fix p assume "p \<in> set (attachedIpv4Prefixes ifc)" "covers p a"
    then show ?thesis
      by (intro fold_gains [where Q = used_entry and x = ifc] ifc)
         (simp_all add: assign_prefixes_gains assign_prefixes_used)
  qed
  then show ?thesis unfolding before_reservations_def by (rule mark_aws_reserved_used)
qed

lemma apply_reservation_at:
  "apply_reservation r idx a =
     (if covers (resv_cidr r) a then reserved_entry r (idx a) else idx a)"
proof -
  have "apply_reservation r idx a =
          (if a \<in> set (addresses (resv_cidr r)) then reserved_entry r (idx a) else idx a)"
    unfolding apply_reservation_def by (rule fold_update_at_idem) (rule reserved_entry_idem)
  then show ?thesis by (simp add: set_addresses)
qed

lemma fold_reservations_used:
  assumes "idx a = Some e" and "is_used (source e)"
  shows "fold apply_reservation reservations idx a =
           Some (e\<lparr>overlap := (case overlap e of
                                 Some held \<Rightarrow> Some held
                               | None \<Rightarrow> List.find (\<lambda>r. covers (resv_cidr r) a) reservations)\<rparr>)"
  using assms
proof (induction reservations arbitrary: idx e)
  case Nil
  then show ?case by (simp split: option.splits)
next
  case (Cons r rs)
  show ?case
  proof (cases "covers (resv_cidr r) a \<and> overlap e = None")
    case True
    then have step: "apply_reservation r idx a = Some (e\<lparr>overlap := Some r\<rparr>)"
      using Cons.prems by (simp add: apply_reservation_at reserved_entry_def)
    have "fold apply_reservation rs (apply_reservation r idx) a =
            Some (e\<lparr>overlap := Some r\<rparr>)"
      using Cons.IH [of "apply_reservation r idx" "e\<lparr>overlap := Some r\<rparr>"] step Cons.prems(2)
      by simp
    then show ?thesis using True by simp
  next
    case False
    then have step: "apply_reservation r idx a = Some e"
      using Cons.prems by (auto simp add: apply_reservation_at reserved_entry_def)
    show ?thesis
      using Cons.IH [of "apply_reservation r idx" e] step Cons.prems(2) False
      by (auto split: option.splits)
  qed
qed

lemma build_index_split:
  "build_index sp interfaces reservations =
     fold apply_reservation reservations (before_reservations sp interfaces)"
  by (simp add: build_index_def)

lemma build_index_used:
  assumes "carries_used interfaces a"
  shows "\<exists>e. is_used (source e) \<and>
           build_index sp interfaces reservations a =
             Some (e\<lparr>overlap := List.find (\<lambda>r. covers (resv_cidr r) a) reservations\<rparr>)"
proof -
  from before_reservations_used [OF assms, of sp] obtain e
    where e: "before_reservations sp interfaces a = Some e" and u: "is_used (source e)"
    by (auto simp: used_entry_def split: option.splits)
  have "overlap e = None"
    using before_reservations_plain [of sp interfaces a] e by (simp add: plain_entry_def)
  then show ?thesis
    using fold_reservations_used [of "before_reservations sp interfaces" a e reservations] e u
    by (auto simp: build_index_split)
qed

lemma nth_classify_all:
  "i < as_size sp \<Longrightarrow> classify_all sp idx ! i = classify idx (addressAt sp i)"
  by (simp add: classify_all_def)

lemma row_Inr: "row label (Inr c) = Inr [(label, c)]"
  by (simp add: row_def)

lemma when_rows_Inr: "when_rows cond (Inr r) = Inr (if cond then r else [])"
  by (simp add: when_rows_def)

lemma when_rows_const: "when_rows False body = Inr []" "when_rows True body = body"
  by (simp_all add: when_rows_def)

lemma details_json_used:
  assumes "is_used (source e)" and "overlap e = Some held"
  shows "\<exists>ty i d s.
           truthy (details_json e)
           \<and> js_opt_get (details_json e) ''type'' = JStr ty
           \<and> ty \<in> {''primary'', ''secondary'', ''prefix_delegation''}
           \<and> js_opt_get (details_json e) ''interfaceId'' = JStr i
           \<and> js_opt_get (details_json e) ''description'' = JStr d
           \<and> js_opt_get (details_json e) ''status'' = JStr s
           \<and> js_opt_get (details_json e) ''cidrReservation'' = reservation_json held"
  using assms by (cases "source e") (simp_all add: details_json_def overlay_fields_def)

lemma analyzeSubnet_result:
  assumes "analyzeSubnet sn interfaces reservations = Inr res"
  shows "ips res = classify_all (subnet_cidr sn) (build_index (subnet_cidr sn) interfaces reservations)"
    and "summary res = aggregate (length (ips res)) (ips res) (analyze_gaps (ips res))"
  using assms
  by (auto simp add: analyzeSubnet_def Let_def length_classify_all split: if_splits)

lemma fold_count_address_cidr:
  "n_cidr (fold count_address cs t)
     = n_cidr t + length (filter (\<lambda>s. s = CidrReservation) (map status cs))"
proof (induction cs arbitrary: t)
  case Nil
  show ?case by simp
next
  case (Cons c cs)
  have "n_cidr (count_address c t) = n_cidr t + (if status c = CidrReservation then 1 else 0)"
    by (simp add: count_address_def split: ip_status.splits option.splits allocation_source.splits)
  then show ?case by (simp add: Cons.IH)
qed

lemma aggregate_available:
  "availableIps (aggregate (length cs) cs gaps) = length (filter (\<lambda>s. s = Free) (map status cs))"
proof -
  let ?zero = "\<lparr>n_used = 0, n_reserved = 0, n_cidr = 0,
                n_primary = 0, n_secondary = 0, n_prefix = 0\<rparr>"
  have "length (filter (\<lambda>c. status c = Free) cs) = length (filter (\<lambda>s. s = Free) (map status cs))"
    by (simp add: filter_map comp_def)
  then show ?thesis
    using fold_count_address_sum [of cs ?zero] by (simp add: aggregate_def Let_def)
qed

lemma aggregate_cidr:
  "cidrReservationIps (aggregate n cs gaps)
     = length (filter (\<lambda>s. s = CidrReservation) (map status cs))"
  by (simp add: aggregate_def Let_def fold_count_address_cidr)

lemma aggregate_details: "fragmentationDetails (aggregate n cs gaps) = gaps"
  by (simp add: aggregate_def Let_def)

lemmas index_build_defs =
  classify_all_def build_index_def before_reservations_def as_size_def addressAt_def addresses_def
  assign_primary_def assign_secondary_def assign_prefixes_def mark_aws_reserved_def
  aws_reserved_addresses_def apply_reservation_def update_at_def upt_conv_Cons classify_def
  primary_entry_def secondary_entry_def aws_entry_def reserved_entry_def fresh_def
  reservation_source_def ipv4_def

lemma demo_statuses_plain:
  "map status (classify_all (subnet_cidr demo_net) (build_index (subnet_cidr demo_net) [demo_eni] []))
     = [Reserved, Reserved, Reserved, Reserved, Used, Used,
        Free, Free, Free, Free, Free, Free, Free, Free, Free, Reserved]"
  by (simp add: index_build_defs demo_net_def demo_eni_def)

lemma demo_statuses_reserved:
  "map status (classify_all (subnet_cidr demo_net)
                 (build_index (subnet_cidr demo_net) [demo_eni] [demo_resv]))
     = [Reserved, Reserved, Reserved, Reserved, Used, Used,
        Free, Free, Free, Free, CidrReservation, CidrReservation, Free, Free, Free, Reserved]"
  by (simp add: index_build_defs demo_net_def demo_eni_def demo_resv_def)

lemma demo_analysis_defined:
  "\<exists>res. analyzeSubnet demo_net [demo_eni] reservations = Inr res"
  if "reservations = [] \<or> reservations = [demo_resv]"
  using that
  by (auto simp add: analyzeSubnet_def valid_block_def as_size_def subnet_soft_cap_def Let_def
        demo_net_def demo_eni_def demo_resv_def)

lemma fold_count_address_used:
  "n_used (fold count_address cs t)
     = n_used t + length (filter (\<lambda>s. s = Used) (map status cs))"
proof (induction cs arbitrary: t)
  case Nil
  show ?case by simp
next
  case (Cons c cs)
  have "n_used (count_address c t) = n_used t + (if status c = Used then 1 else 0)"
    by (simp add: count_address_def split: ip_status.splits option.splits allocation_source.splits)
  then show ?case by (simp add: Cons.IH)
qed

lemma fold_count_address_reserved:
  "n_reserved (fold count_address cs t)
     = n_reserved t + length (filter (\<lambda>s. s = Reserved) (map status cs))"
proof (induction cs arbitrary: t)
  case Nil
  show ?case by simp
next
  case (Cons c cs)
  have "n_reserved (count_address c t) = n_reserved t + (if status c = Reserved then 1 else 0)"
    by (simp add: count_address_def split: ip_status.splits option.splits allocation_source.splits)
  then show ?case by (simp add: Cons.IH)
qed

lemma aggregate_used:
  "usedIps (aggregate n cs gaps) = length (filter (\<lambda>s. s = Used) (map status cs))"
  by (simp add: aggregate_def Let_def fold_count_address_used)

lemma aggregate_reserved:
  "reservedIps (aggregate n cs gaps) = length (filter (\<lambda>s. s = Reserved) (map status cs))"
  by (simp add: aggregate_def Let_def fold_count_address_reserved)

section \<open>Results\<close>

text \<open>
  C1: for every analysis pass that returns a report, the counts satisfy
  \<open>usedIps + reservedIps + cidrReservationIps + availableIps = totalIps\<close>. The total is
  the number of classified addresses, and \<open>availableIps\<close> is the number of them with
  status \<open>free\<close>, so the subtraction that defines it never runs below zero.
\<close>

theorem report_counts_partition:
  assumes "analyzeSubnet sn interfaces reservations = Inr res"
  shows "usedIps (summary res) + reservedIps (summary res) + cidrReservationIps (summary res)
           + availableIps (summary res) = totalIps (summary res)
         \<and> totalIps (summary res) = length (ips res)
         \<and> availableIps (summary res) = length (filter (\<lambda>c. status c = Free) (ips res))"
proof -
  let ?sp = "subnet_cidr sn"
  let ?cs = "classify_all ?sp (build_index ?sp interfaces reservations)"
  let ?zero = "\<lparr>n_used = 0, n_reserved = 0, n_cidr = 0,
                n_primary = 0, n_secondary = 0, n_prefix = 0\<rparr>"
  let ?t = "fold count_address ?cs ?zero"
  from assms have res:
    "res = \<lparr>ips = ?cs, summary = aggregate (as_size ?sp) ?cs (analyze_gaps ?cs)\<rparr>"
    by (simp add: analyzeSubnet_def Let_def split: if_splits)
  have total: "n_used ?t + n_reserved ?t + n_cidr ?t
                 + length (filter (\<lambda>c. status c = Free) ?cs) = as_size ?sp"
    using fold_count_address_sum [of ?cs ?zero] by (simp add: length_classify_all)
  show ?thesis
    using total by (simp add: res aggregate_def Let_def length_classify_all)
qed

theorem report_counts_partition_witness:
  "\<exists>res. analyzeSubnet demo_net [demo_eni] [demo_resv] = Inr res
     \<and> usedIps (summary res) = 2
     \<and> reservedIps (summary res) = 5
     \<and> cidrReservationIps (summary res) = 2
     \<and> availableIps (summary res) = 7
     \<and> totalIps (summary res) = 16"
proof -
  obtain res where res: "analyzeSubnet demo_net [demo_eni] [demo_resv] = Inr res"
    using demo_analysis_defined [of "[demo_resv]"] by auto
  have st: "map status (ips res) = [Reserved, Reserved, Reserved, Reserved, Used, Used,
        Free, Free, Free, Free, CidrReservation, CidrReservation, Free, Free, Free, Reserved]"
    by (simp add: analyzeSubnet_result(1) [OF res] demo_statuses_reserved)
  have u: "usedIps (summary res) = 2"
    by (simp add: analyzeSubnet_result(2) [OF res] aggregate_used st)
  have r: "reservedIps (summary res) = 5"
    by (simp add: analyzeSubnet_result(2) [OF res] aggregate_reserved st)
  have c: "cidrReservationIps (summary res) = 2"
    by (simp add: analyzeSubnet_result(2) [OF res] aggregate_cidr st)
  have n: "length (ips res) = 16"
    using arg_cong [OF st, of length] by simp
  from report_counts_partition [OF res] have "availableIps (summary res) = 7"
    and "totalIps (summary res) = 16"
    using u r c n by simp_all
  then show ?thesis using res u r c by blast
qed

text \<open>
  C2: an address that carries a Used source and falls inside the range of a CIDR
  reservation is classified \<open>used\<close>, and its detail carries the first-listed reservation
  that covers it. On the wire the record has status \<open>used\<close> and the reservation's cidr,
  type and description under \<open>details.cidrReservation\<close>, and the address map shows both
  facts: the block keeps the class of its status and gains \<open>has-reservation\<close>, and the
  tooltip shows the status and the reservation's cidr and type, and its description when
  it is not empty.
\<close>

theorem used_address_keeps_reservation_overlay:
  assumes "analyzeSubnet sn interfaces reservations = Inr res"
    and "i < as_size (subnet_cidr sn)"
    and "carries_used interfaces (addressAt (subnet_cidr sn) i)"
    and "r \<in> set reservations"
    and "covers (resv_cidr r) (addressAt (subnet_cidr sn) i)"
  shows "\<exists>e held.
           List.find (\<lambda>r. covers (resv_cidr r) (addressAt (subnet_cidr sn) i)) reservations
             = Some held
         \<and> status (ips res ! i) = Used
         \<and> details (ips res ! i) = Some e \<and> is_used (source e) \<and> overlap e = Some held
         \<and> js_opt_get (address_json (ips res ! i)) ''status'' = JStr ''used''
         \<and> js_opt_get (js_opt_get (address_json (ips res ! i)) ''details'') ''cidrReservation''
             = JObj [(''cidr'', JStr (show_cidr (resv_cidr held))),
                     (''type'', JStr (type_text (resv_type held))),
                     (''description'', JStr (resv_description held))]
         \<and> (\<exists>block. render_ip_block (address_json (ips res ! i)) i = Inr block
                \<and> block_status block = JStr ''used''
                \<and> block_has_reservation block)
         \<and> (\<exists>header body. tooltip (address_json (ips res ! i)) = Inr (Some (header, body))
                \<and> (''Status:'', Value (JStr ''USED'')) \<in> set body
                \<and> (''CIDR Reservation:'', Value (JStr (show_cidr (resv_cidr held)))) \<in> set body
                \<and> (''Reservation Type:'', Value (JStr (type_text (resv_type held)))) \<in> set body
                \<and> (resv_description held \<noteq> []
                     \<longrightarrow> (''Reservation Desc:'', Value (JStr (resv_description held))) \<in> set body))"
proof -
  let ?sp = "subnet_cidr sn"
  let ?a = "addressAt ?sp i"
  let ?idx = "build_index ?sp interfaces reservations"
  from assms(1) have ips: "ips res = classify_all ?sp ?idx"
    by (auto simp add: analyzeSubnet_def Let_def split: if_splits)
  have nth: "ips res ! i = classify ?idx ?a"
    using assms(2) by (simp add: ips nth_classify_all)
  from assms(4,5) obtain held
    where held: "List.find (\<lambda>r. covers (resv_cidr r) ?a) reservations = Some held"
    by (cases "List.find (\<lambda>r. covers (resv_cidr r) ?a) reservations")
       (auto simp: find_None_iff)
  from build_index_used [OF assms(3), of ?sp reservations] obtain e0
    where used0: "is_used (source e0)"
      and idx: "?idx ?a = Some (e0\<lparr>overlap := Some held\<rparr>)"
    by (auto simp: held)
  let ?e = "e0\<lparr>overlap := Some held\<rparr>"
  have used: "is_used (source ?e)" and ov: "overlap ?e = Some held"
    using used0 by simp_all
  have st: "status_of (source ?e) = Used"
    using used0 by (cases "source e0") simp_all
  have ca: "ips res ! i = \<lparr>ip = ?a, status = Used, details = Some ?e\<rparr>"
    using st by (simp add: nth classify_def idx)
  define D where "D = details_json ?e"
  define R where "R = reservation_json held"
  from details_json_used [OF used ov] obtain ty ifc d s
    where trD: "truthy D"
      and jty: "js_opt_get D ''type'' = JStr ty"
      and ty: "ty \<in> {''primary'', ''secondary'', ''prefix_delegation''}"
      and jif: "js_opt_get D ''interfaceId'' = JStr ifc"
      and jde: "js_opt_get D ''description'' = JStr d"
      and jes: "js_opt_get D ''status'' = JStr s"
      and jcr: "js_opt_get D ''cidrReservation'' = R"
    unfolding D_def R_def by blast
  let ?j = "address_json (ips res ! i)"
  have j: "?j = JObj [(''ip'', JStr (show_ip ?a)), (''status'', JStr ''used''), (''details'', D)]"
    by (simp add: ca address_json_def D_def)
  have tr: "truthy ?j" by (simp add: j)
  have jip: "js_opt_get ?j ''ip'' = JStr (show_ip ?a)" by (simp add: j)
  have jst: "js_opt_get ?j ''status'' = JStr ''used''" by (simp add: j)
  have jd: "js_opt_get ?j ''details'' = D" by (simp add: j)
  have trR: "truthy R" by (simp add: R_def reservation_json_def)
  have rc: "js_opt_get R ''cidr'' = JStr (show_cidr (resv_cidr held))"
    and rt: "js_opt_get R ''type'' = JStr (type_text (resv_type held))"
    and rd: "js_opt_get R ''description'' = JStr (resv_description held)"
    by (simp_all add: R_def reservation_json_def)
  have tyne: "ty \<noteq> []" using ty by auto
  have overlap_value: "hasReservationOverlap ?j = Inr R"
    by (simp add: hasReservationOverlap_def j jcr)
  obtain c where colour: "getIpColor ?j = Inr c"
    by (simp add: getIpColor_def j jty)
  obtain l where label: "getIpLabel ?j = Inr l"
    by (simp add: getIpLabel_def j)
  have gst: "js_get ?j ''status'' = Inr (JStr ''used'')"
    and gip: "js_get ?j ''ip'' = Inr (JStr (show_ip ?a))"
    by (simp_all add: j)
  have block: "\<exists>block. render_ip_block ?j i = Inr block
                 \<and> block_status block = JStr ''used'' \<and> block_has_reservation block"
    by (simp add: render_ip_block_def overlap_value gst gip colour label trR)
  have tip: "\<exists>header body. tooltip ?j = Inr (Some (header, body))
                \<and> (''Status:'', Value (JStr ''USED'')) \<in> set body
                \<and> (''CIDR Reservation:'', Value (JStr (show_cidr (resv_cidr held)))) \<in> set body
                \<and> (''Reservation Type:'', Value (JStr (type_text (resv_type held)))) \<in> set body
                \<and> (resv_description held \<noteq> []
                     \<longrightarrow> (''Reservation Desc:'', Value (JStr (resv_description held))) \<in> set body)"
    by (simp add: tooltip_def Let_def tr jip jst jd trD jty jif jde jes jcr trR rc rt rd
          row_Inr when_rows_Inr when_rows_const upper_char_def tyne)
  have wire: "js_opt_get (js_opt_get ?j ''details'') ''cidrReservation''
             = JObj [(''cidr'', JStr (show_cidr (resv_cidr held))),
                     (''type'', JStr (type_text (resv_type held))),
                     (''description'', JStr (resv_description held))]"
    by (simp add: jd jcr R_def reservation_json_def)
  show ?thesis
    using held ca used ov jst wire block tip by simp
qed

theorem used_address_keeps_reservation_overlay_witness:
  "\<exists>res. analyzeSubnet demo_net [demo_eni, demo_eni_in_range] [demo_resv] = Inr res
     \<and> status (ips res ! 10) = Used
     \<and> (\<exists>header body. tooltip (address_json (ips res ! 10)) = Inr (Some (header, body))
            \<and> (''Status:'', Value (JStr ''USED'')) \<in> set body
            \<and> (''CIDR Reservation:'', Value (JStr ''10.0.1.10/31'')) \<in> set body
            \<and> (''Reservation Type:'', Value (JStr ''explicit'')) \<in> set body
            \<and> (''Reservation Desc:'', Value (JStr ''held'')) \<in> set body)"
proof -
  let ?a = "addressAt (subnet_cidr demo_net) 10"
  obtain res where res: "analyzeSubnet demo_net [demo_eni, demo_eni_in_range] [demo_resv] = Inr res"
    by (simp add: analyzeSubnet_def valid_block_def as_size_def subnet_soft_cap_def Let_def
          demo_net_def demo_eni_def demo_eni_in_range_def demo_resv_def)
  have i: "10 < as_size (subnet_cidr demo_net)"
    by (simp add: demo_net_def as_size_def)
  have cu: "carries_used [demo_eni, demo_eni_in_range] ?a"
    by (simp add: carries_used_def demo_net_def demo_eni_def demo_eni_in_range_def
          addressAt_def ipv4_def)
  have r: "demo_resv \<in> set [demo_resv]" by simp
  have cov: "covers (resv_cidr demo_resv) ?a"
    by (simp add: covers_def demo_net_def demo_resv_def addressAt_def ipv4_def as_size_def)
  have first: "List.find (\<lambda>r. covers (resv_cidr r) ?a) [demo_resv] = Some demo_resv"
    using cov by simp
  have shown: "show_cidr (resv_cidr demo_resv) = ''10.0.1.10/31''"
    by (simp add: show_cidr_def show_ip_def show_nat.simps digit_char_def demo_resv_def ipv4_def)
  have fields: "type_text (resv_type demo_resv) = ''explicit''"
    "resv_description demo_resv = ''held''"
    by (simp_all add: demo_resv_def)
  from used_address_keeps_reservation_overlay [OF res i cu r cov]
  show ?thesis
    unfolding first using res shown fields by auto
qed

text \<open>
  C3 (as stated): a score below 20 is low, a score between 20 and 50 is moderate and a
  score above 50 is high, so that exactly 50 would be moderate. Both components compare
  with \<open>score < 50\<close>, so exactly 50 falls in the high band.
\<close>

theorem frag_level_50_counterexample:
  "level (getFragmentationLevel 50) = ''High''
   \<and> level (getFragmentationLevel 50) \<noteq> ''Moderate''
   \<and> getFragmentationColor 50 = ''#ef4444''"
  by (simp add: getFragmentationLevel_def getFragmentationColor_def)

text \<open>
  C3 (amended): the bands are half-open. A score is low exactly when it is below 20,
  moderate exactly when it is at least 20 and below 50, and high exactly when it is at
  least 50; the list's colour is the colour of the level shown by the statistics card.
\<close>

theorem frag_level_bands:
  "(level (getFragmentationLevel s) = ''Low'' \<longleftrightarrow> s < 20)
   \<and> (level (getFragmentationLevel s) = ''Moderate'' \<longleftrightarrow> 20 \<le> s \<and> s < 50)
   \<and> (level (getFragmentationLevel s) = ''High'' \<longleftrightarrow> 50 \<le> s)
   \<and> getFragmentationColor s = color (getFragmentationLevel s)"
  by (simp add: getFragmentationLevel_def getFragmentationColor_def)

theorem frag_level_bands_witness:
  "level (getFragmentationLevel 20) = ''Moderate''
   \<and> level (getFragmentationLevel 19.9) = ''Low''
   \<and> level (getFragmentationLevel 50) = ''High''"
  using frag_level_bands [of 20] frag_level_bands [of "19.9"] frag_level_bands [of 50]
  by simp

text \<open>
  C4: the gap analysis counts the maximal runs of consecutive addresses whose status is
  exactly \<open>free\<close>; any other status ends a run. \<open>numGaps\<close> is the number of positions
  where such a run starts, \<open>largestGap\<close> is the length of the longest stretch of free
  addresses (0 when no address is free), and \<open>avgGapSize\<close> is the mean of the run
  lengths, the number of free addresses over the number of runs (0 when there is no run).
  In the subnet of spec 8 the only free run has length 9; the reservation of two
  addresses inside it leaves runs of length 4 and 3, \<open>numGaps = 2\<close>, \<open>largestGap = 4\<close>,
  two CIDR-reserved and seven available addresses.
\<close>

theorem gap_analysis_maximal_free_runs:
  "numGaps (analyze_gaps cs) = card (run_starts (map status cs))
   \<and> (\<forall>i n. free_segment (map status cs) i n \<longrightarrow> n \<le> largestGap (analyze_gaps cs))
   \<and> (\<exists>i. free_segment (map status cs) i (largestGap (analyze_gaps cs)))
   \<and> ((\<forall>c \<in> set cs. status c \<noteq> Free) \<longrightarrow>
        largestGap (analyze_gaps cs) = 0 \<and> numGaps (analyze_gaps cs) = 0
        \<and> avgGapSize (analyze_gaps cs) = 0)
   \<and> numGaps (analyze_gaps cs) = length (gap_runs cs)
   \<and> largestGap (analyze_gaps cs) = Max (insert 0 (set (gap_runs cs)))
   \<and> (\<forall>r \<in> set (gap_runs cs). 0 < r)
   \<and> sum_list (gap_runs cs) = length (filter (\<lambda>c. status c = Free) cs)
   \<and> avgGapSize (analyze_gaps cs)
       = (if gap_runs cs = [] then 0
          else of_nat (sum_list (gap_runs cs)) / of_nat (length (gap_runs cs)))
   \<and> (\<exists>res. analyzeSubnet demo_net [demo_eni] [] = Inr res
          \<and> gap_runs (ips res) = [9]
          \<and> fragmentationDetails (summary res) = \<lparr>numGaps = 1, largestGap = 9, avgGapSize = 9\<rparr>
          \<and> availableIps (summary res) = 9)
   \<and> (\<exists>res. analyzeSubnet demo_net [demo_eni] [demo_resv] = Inr res
          \<and> gap_runs (ips res) = [4, 3]
          \<and> fragmentationDetails (summary res)
              = \<lparr>numGaps = 2, largestGap = 4, avgGapSize = 7 / 2\<rparr>
          \<and> cidrReservationIps (summary res) = 2
          \<and> availableIps (summary res) = 7)"
proof -
  let ?st = "map status cs"
  let ?runs = "gap_runs cs"
  have runs: "?runs = scan_gaps ?st 0" by (simp add: gap_runs_def)
  have n: "numGaps (analyze_gaps cs) = length ?runs"
    and l: "largestGap (analyze_gaps cs) = fold max ?runs 0"
    and a: "avgGapSize (analyze_gaps cs)
              = (if ?runs = [] then 0 else of_nat (sum_list ?runs) / of_nat (length ?runs))"
    by (simp_all add: analyze_gaps_def Let_def)
  have starts: "length ?runs = card (run_starts ?st)"
    by (simp add: runs length_scan_gaps run_starts_from)
  have upper: "\<forall>i n. free_segment ?st i n \<longrightarrow> n \<le> fold max ?runs 0"
  proof (intro allI impI)
    fix i n assume "free_segment ?st i n"
    from largest_upper [OF this, of 0] show "n \<le> fold max ?runs 0"
      by (simp add: runs split: if_splits)
  qed
  have attained: "\<exists>i. free_segment ?st i (fold max ?runs 0)"
    using largest_attained [of ?st 0] by (auto simp add: runs split: if_splits)
  have positive: "\<forall>r \<in> set ?runs. 0 < r"
    using scan_gaps_positive by (auto simp add: runs)
  have total: "sum_list ?runs = length (filter (\<lambda>c. status c = Free) cs)"
    by (simp add: runs sum_scan_gaps filter_map comp_def)
  have as_Max: "fold max ?runs 0 = Max (insert 0 (set ?runs))"
    by (simp add: Max.set_eq_fold [symmetric])
  have none: "fold max ?runs 0 = 0 \<and> length ?runs = 0" if "\<forall>c \<in> set cs. status c \<noteq> Free"
  proof -
    have "filter (\<lambda>c. status c = Free) cs = []" using that by (simp add: filter_empty_conv)
    then have "sum_list ?runs = 0" using total by simp
    then have "?runs = []" using positive by (cases ?runs) auto
    then show ?thesis by simp
  qed
  obtain r1 where r1: "analyzeSubnet demo_net [demo_eni] [] = Inr r1"
    using demo_analysis_defined [of "[]"] by auto
  obtain r2 where r2: "analyzeSubnet demo_net [demo_eni] [demo_resv] = Inr r2"
    using demo_analysis_defined [of "[demo_resv]"] by auto
  have s1: "map status (ips r1) = [Reserved, Reserved, Reserved, Reserved, Used, Used,
        Free, Free, Free, Free, Free, Free, Free, Free, Free, Reserved]"
    by (simp add: analyzeSubnet_result(1) [OF r1] demo_statuses_plain)
  have s2: "map status (ips r2) = [Reserved, Reserved, Reserved, Reserved, Used, Used,
        Free, Free, Free, Free, CidrReservation, CidrReservation, Free, Free, Free, Reserved]"
    by (simp add: analyzeSubnet_result(1) [OF r2] demo_statuses_reserved)
  have g1: "gap_runs (ips r1) = [9]" by (simp add: gap_runs_def s1)
  have g2: "gap_runs (ips r2) = [4, 3]" by (simp add: gap_runs_def s2)
  have d1: "fragmentationDetails (summary r1) = \<lparr>numGaps = 1, largestGap = 9, avgGapSize = 9\<rparr>"
    by (simp add: analyzeSubnet_result(2) [OF r1] aggregate_details analyze_gaps_def g1)
  have d2: "fragmentationDetails (summary r2) = \<lparr>numGaps = 2, largestGap = 4, avgGapSize = 7 / 2\<rparr>"
    by (simp add: analyzeSubnet_result(2) [OF r2] aggregate_details analyze_gaps_def g2)
  have c2: "cidrReservationIps (summary r2) = 2"
    by (simp add: analyzeSubnet_result(2) [OF r2] aggregate_cidr s2)
  have a1: "availableIps (summary r1) = 9"
    by (simp add: analyzeSubnet_result(2) [OF r1] aggregate_available s1)
  have a2: "availableIps (summary r2) = 7"
    by (simp add: analyzeSubnet_result(2) [OF r2] aggregate_available s2)
  have scenario1: "\<exists>res. analyzeSubnet demo_net [demo_eni] [] = Inr res
          \<and> gap_runs (ips res) = [9]
          \<and> fragmentationDetails (summary res) = \<lparr>numGaps = 1, largestGap = 9, avgGapSize = 9\<rparr>
          \<and> availableIps (summary res) = 9"
    using r1 g1 d1 a1 by blast
  have scenario2: "\<exists>res. analyzeSubnet demo_net [demo_eni] [demo_resv] = Inr res
          \<and> gap_runs (ips res) = [4, 3]
          \<and> fragmentationDetails (summary res)
              = \<lparr>numGaps = 2, largestGap = 4, avgGapSize = 7 / 2\<rparr>
          \<and> cidrReservationIps (summary res) = 2
          \<and> availableIps (summary res) = 7"
    using r2 g2 d2 c2 a2 by blast
  show ?thesis
    unfolding n l a
    using starts upper attained none positive total as_Max scenario1 scenario2
    by (intro conjI) simp_all
qed

theorem gap_analysis_maximal_free_runs_witness:
  "free_segment (map status demo_sequence) 2 2
   \<and> 2 \<le> largestGap (analyze_gaps demo_sequence)
   \<and> run_starts (map status demo_sequence) = {0, 2}
   \<and> numGaps (analyze_gaps demo_sequence) = 2
   \<and> gap_runs demo_sequence = [1, 2]
   \<and> avgGapSize (analyze_gaps demo_sequence) = 3 / 2"
proof -
  have seg: "free_segment (map status demo_sequence) 2 2"
    by (simp add: free_segment_def demo_sequence_def All_less_Suc numeral_2_eq_2)
  have runs: "gap_runs demo_sequence = [1, 2]"
    by (simp add: gap_runs_def demo_sequence_def)
  have starts: "run_starts (map status demo_sequence) = {0, 2}"
    by (auto simp add: run_starts_def demo_sequence_def upt_conv_Cons)
  have two: "card {0, 2 :: nat} = 2" by simp
  from gap_analysis_maximal_free_runs [of demo_sequence]
  have "2 \<le> largestGap (analyze_gaps demo_sequence)"
    and "numGaps (analyze_gaps demo_sequence) = 2"
    and "avgGapSize (analyze_gaps demo_sequence) = 3 / 2"
    using seg runs starts two by simp_all
  then show ?thesis using seg runs starts by blast
qed




text \<open>
  C9: \<open>getIpColor\<close> is total on address records. For every record (any value but
  \<open>undefined\<close> and \<open>null\<close>) it returns one of its seven colours; a status that
  is missing or not one of \<open>used\<close>, \<open>reserved\<close>, \<open>cidr_reservation\<close> gives the free
  colour, a used address whose \<open>details.type\<close> is not primary, secondary or
  prefix_delegation gives the default blue, and a CIDR-reserved address whose
  \<open>details.type\<close> is not explicit or prefix gives the default amber.
\<close>

theorem getIpColor_total:
  assumes "v \<noteq> JUndefined" and "v \<noteq> JNull"
  shows "\<exists>c. getIpColor v = Inr c
     \<and> c \<in> {''#3b82f6'', ''#06b6d4'', ''#8b5cf6'', ''#9ca3af'', ''#f59e0b'', ''#f97316'', ''#f3f4f6''}
     \<and> (js_opt_get v ''status'' \<notin> {JStr ''used'', JStr ''reserved'', JStr ''cidr_reservation''}
          \<longrightarrow> c = ''#f3f4f6'')
     \<and> (js_opt_get v ''status'' = JStr ''used''
          \<and> js_opt_get (js_opt_get v ''details'') ''type''
               \<notin> {JStr ''primary'', JStr ''secondary'', JStr ''prefix_delegation''}
          \<longrightarrow> c = ''#3b82f6'')
     \<and> (js_opt_get v ''status'' = JStr ''cidr_reservation''
          \<and> js_opt_get (js_opt_get v ''details'') ''type'' \<notin> {JStr ''explicit'', JStr ''prefix''}
          \<longrightarrow> c = ''#f59e0b'')"
proof -
  obtain st where st: "js_get v ''status'' = Inr st"
    using js_get_defined [OF assms] by blast
  obtain d where d: "js_get v ''details'' = Inr d"
    using js_get_defined [OF assms] by blast
  have st': "js_opt_get v ''status'' = st" using st by (rule js_get_opt_get)
  have d': "js_opt_get v ''details'' = d" using d by (rule js_get_opt_get)
  show ?thesis
    unfolding getIpColor_def st d st' d' by simp
qed

theorem getIpColor_total_witness:
  "(\<exists>c. getIpColor (JObj [(''ip'', JStr ''10.0.1.7'')]) = Inr c \<and> c = ''#f3f4f6'')
   \<and> (\<exists>c. getIpColor (JObj [(''status'', JStr ''used''),
                              (''details'', JObj [(''type'', JStr ''trunk'')])]) = Inr c
          \<and> c = ''#3b82f6'')
   \<and> (\<exists>c. getIpColor (JObj [(''status'', JStr ''cidr_reservation''), (''details'', JNull)]) = Inr c
          \<and> c = ''#f59e0b'')"
  using getIpColor_total [of "JObj [(''ip'', JStr ''10.0.1.7'')]"]
    getIpColor_total [of "JObj [(''status'', JStr ''used''),
                               (''details'', JObj [(''type'', JStr ''trunk'')])]"]
    getIpColor_total [of "JObj [(''status'', JStr ''cidr_reservation''), (''details'', JNull)]"]
  by simp

text \<open>
  C10: \<open>SubnetList\<close> produces exactly one of three renderings, in a fixed precedence:
  the loading indicator when \<open>loading\<close> is true, whatever the list; otherwise the empty
  state when the list is empty; otherwise one item per subnet, in the order given, each
  keyed by and selecting its own subnet.
\<close>

theorem SubnetList_renderings:
  "(SubnetList subnets selectedSubnet loading = LoadingView \<longleftrightarrow> loading)
   \<and> (SubnetList subnets selectedSubnet loading = EmptyView \<longleftrightarrow> \<not> loading \<and> subnets = [])
   \<and> ((\<exists>n items. SubnetList subnets selectedSubnet loading = ListView n items)
        \<longleftrightarrow> \<not> loading \<and> subnets \<noteq> [])
   \<and> (\<not> loading \<and> subnets \<noteq> [] \<longrightarrow>
        (\<exists>items. SubnetList subnets selectedSubnet loading = ListView (length subnets) items
           \<and> length items = length subnets
           \<and> (\<forall>i < length subnets.
                 items ! i = render_subnet_item selectedSubnet (subnets ! i)
                 \<and> item_key (items ! i) = id (subnets ! i)
                 \<and> item_click (items ! i) = subnets ! i)))"
  by (simp add: SubnetList_def render_subnet_item_def)

theorem SubnetList_renderings_witness:
  "SubnetList [demo_subnet ''subnet-a'', demo_subnet ''subnet-b''] None True = LoadingView
   \<and> SubnetList [] None False = EmptyView
   \<and> (\<exists>items. SubnetList [demo_subnet ''subnet-a'', demo_subnet ''subnet-b''] None False
                   = ListView 2 items
          \<and> length items = 2
          \<and> item_key (items ! 0) = ''subnet-a''
          \<and> item_key (items ! 1) = ''subnet-b'')"
proof -
  let ?ss = "[demo_subnet ''subnet-a'', demo_subnet ''subnet-b'']"
  have a: "SubnetList ?ss None True = LoadingView"
    using SubnetList_renderings [of ?ss None True] by simp
  have b: "SubnetList [] None False = EmptyView"
    using SubnetList_renderings [of "[]" None False] by simp
  obtain items where v: "SubnetList ?ss None False = ListView (length ?ss) items"
    and n: "length items = length ?ss"
    and each: "\<forall>i < length ?ss. item_key (items ! i) = id (?ss ! i)"
    using SubnetList_renderings [of ?ss None False] by auto
  have k0: "item_key (items ! 0) = ''subnet-a''"
    using each by (simp add: demo_subnet_def)
  have k1: "item_key (items ! 1) = ''subnet-b''"
    using each by (simp add: demo_subnet_def)
  show ?thesis using a b v n k0 k1 by simp
qed

end
